theory Spec2Isabelle
  imports Complex_Main
begin

section \<open>Vectors, matrices and errors\<close>

text \<open>
  The program is written against dolfin vectors and matrices and the hIPPYlib
  time-dependent vector.  A dolfin vector over a function space is modelled as a function
  from the (finite) set of degrees of freedom of that space to the reals, a matrix as a
  function of a row and a column index.  Three index types occur: \<open>'n\<close> for the state and
  adjoint space, \<open>'q\<close> for the parameter space and \<open>'k\<close> for the observation targets.
  Double precision numbers are read as real numbers.  A Python exception is a value
  \<open>Inl e\<close> of the result type.
\<close>

datatype error = AssertionError | TypeError | ZeroDivisionError | AttributeError | IndexError

type_synonym time = real
type_synonym 'n Vector = "'n \<Rightarrow> real"
type_synonym ('r, 'c) Matrix = "'r \<Rightarrow> 'c \<Rightarrow> real"

definition zero_V :: "'n Vector" where
  \<comment> \<open>the value of a vector after \<open>v.zero()\<close>\<close>
  "zero_V = (\<lambda>i. 0)"

definition axpy :: "real \<Rightarrow> 'n Vector \<Rightarrow> 'n Vector \<Rightarrow> 'n Vector" where
  \<comment> \<open>\<open>y.axpy(a, x)\<close>: the new value of \<open>y\<close>\<close>
  "axpy a x y = (\<lambda>i. y i + a * x i)"

definition scale :: "real \<Rightarrow> 'n Vector \<Rightarrow> 'n Vector" where
  \<comment> \<open>\<open>y *= a\<close>: the new value of \<open>y\<close>\<close>
  "scale a y = (\<lambda>i. a * y i)"

definition inner :: "('n::finite) Vector \<Rightarrow> 'n Vector \<Rightarrow> real" where
  "inner x y = (\<Sum>i\<in>UNIV. x i * y i)"

definition mult :: "('r, 'c::finite) Matrix \<Rightarrow> 'c Vector \<Rightarrow> 'r Vector" where
  \<comment> \<open>\<open>A.mult(x, y)\<close>: the new value of \<open>y\<close>\<close>
  "mult A x = (\<lambda>i. \<Sum>j\<in>UNIV. A i j * x j)"

definition transpmult :: "('r::finite, 'c) Matrix \<Rightarrow> 'r Vector \<Rightarrow> 'c Vector" where
  \<comment> \<open>\<open>A.transpmult(x, y)\<close>: the new value of \<open>y\<close>\<close>
  "transpmult A x = (\<lambda>j. \<Sum>i\<in>UNIV. A i j * x i)"

text \<open>
  Modelled from the spec: the role tags \<open>STATE\<close>, \<open>PARAMETER\<close> and \<open>ADJOINT\<close> are shared
  integer constants of hIPPYlib, imported by the source file and not defined in it.
\<close>

definition STATE :: int where "STATE = 0"
definition PARAMETER :: int where "PARAMETER = 1"
definition ADJOINT :: int where "ADJOINT = 2"

definition py_div :: "real \<Rightarrow> real option \<Rightarrow> error + real" where
  \<comment> \<open>Python's \<open>a / b\<close> for a float \<open>a\<close>; \<open>b\<close> is \<open>None\<close> or a float\<close>
  "py_div a b = (case b of None \<Rightarrow> Inl TypeError
                 | Some s \<Rightarrow> if s = 0 then Inl ZeroDivisionError else Inr (a / s))"

definition py_mul :: "real \<Rightarrow> real option \<Rightarrow> error + real option" where
  \<comment> \<open>Python's \<open>a * b\<close> for a float \<open>a\<close>; \<open>b\<close> is \<open>None\<close> or a float\<close>
  "py_mul a b = (case b of None \<Rightarrow> Inl TypeError | Some s \<Rightarrow> Inr (Some (a * s)))"

section \<open>The time-indexed vector container\<close>

text \<open>
  Modelled from the spec: the class \<open>TimeDependentVector\<close> of hIPPYlib is not part of the
  source file.  The spec describes it as an ordered sequence of vectors keyed by the
  time stamps of a fixed time grid, with \<open>store(vector, t)\<close>, \<open>retrieve(buffer, t)\<close> and
  \<open>zero()\<close>, where a time that is not on the grid is a precondition violation.  It is a
  list of pairs of a time stamp and a vector; \<open>store\<close> and \<open>retrieve\<close> address the first
  entry whose key is the given time and fail when there is none.  \<open>retrieve\<close> returns the
  value it copies into the caller's buffer.
\<close>

type_synonym 'n TimeDependentVector = "(time \<times> 'n Vector) list"

definition TimeDependentVector :: "time list \<Rightarrow> 'n TimeDependentVector" where
  \<comment> \<open>the constructor followed by \<open>initialize\<close>: one zero vector per time\<close>
  "TimeDependentVector ts = map (\<lambda>t. (t, zero_V)) ts"

definition zero_T :: "'n TimeDependentVector \<Rightarrow> 'n TimeDependentVector" where
  "zero_T c = map (\<lambda>(t, v). (t, zero_V)) c"

fun store :: "'n TimeDependentVector \<Rightarrow> 'n Vector \<Rightarrow> time \<Rightarrow> error + 'n TimeDependentVector" where
  "store [] u t = Inl AssertionError"
| "store ((s, v) # c) u t =
     (if s = t then Inr ((s, u) # c)
      else case store c u t of Inl e \<Rightarrow> Inl e | Inr c' \<Rightarrow> Inr ((s, v) # c'))"

fun retrieve :: "'n TimeDependentVector \<Rightarrow> time \<Rightarrow> error + 'n Vector" where
  "retrieve [] t = Inl AssertionError"
| "retrieve ((s, v) # c) t = (if s = t then Inr v else retrieve c t)"

definition scale_T :: "real \<Rightarrow> 'n TimeDependentVector \<Rightarrow> 'n TimeDependentVector" where
  \<comment> \<open>the scalar scaling of the container's arithmetic\<close>
  "scale_T a c = map (\<lambda>(t, v). (t, scale a v)) c"

definition grid :: "'n TimeDependentVector \<Rightarrow> time list" where
  \<comment> \<open>the time stamps of a container, in order\<close>
  "grid c = map fst c"

definition entry :: "'n TimeDependentVector \<Rightarrow> time \<Rightarrow> 'n Vector" where
  \<comment> \<open>the entry of a container at a time of its grid (used in statements only)\<close>
  "entry c t = (case retrieve c t of Inl e \<Rightarrow> zero_V | Inr v \<Rightarrow> v)"

section \<open>The misfit component\<close>

record ('n, 'k) SpaceTimePointwiseStateObservation =
  observation_times :: "time list"
  B_obs :: "('k, 'n) Matrix"
  d_obs :: "'k TimeDependentVector"
  noise_variance :: "real option"

text \<open>
  The triple \<open>x = [u, m, p]\<close>.  The adjoint entry is \<open>None\<close> where the driver has not
  made one yet.
\<close>

record ('n, 'q) xtriple =
  x_STATE :: "'n TimeDependentVector"
  x_PARAMETER :: "'q Vector"
  x_ADJOINT :: "'n TimeDependentVector option"

fun cost_loop :: "('n::finite, 'k::finite) SpaceTimePointwiseStateObservation \<Rightarrow>
    'n TimeDependentVector \<Rightarrow> time list \<Rightarrow> real \<Rightarrow> error + real" where
  "cost_loop ms u [] c = Inr c"
| "cost_loop ms u (t # ts) c =
     (case retrieve u t of Inl e \<Rightarrow> Inl e | Inr u_snapshot \<Rightarrow>
      (let Bu_snapshot = mult (B_obs ms) u_snapshot in
       case retrieve (d_obs ms) t of Inl e \<Rightarrow> Inl e | Inr d_snapshot \<Rightarrow>
       (let Bu_snapshot = axpy (- 1) d_snapshot Bu_snapshot in
        cost_loop ms u ts (c + inner Bu_snapshot Bu_snapshot))))"

definition cost :: "('n::finite, 'k::finite) SpaceTimePointwiseStateObservation \<Rightarrow>
    ('n, 'q) xtriple \<Rightarrow> error + real" where
  "cost ms x =
     (case cost_loop ms (x_STATE x) (observation_times ms) 0 of Inl e \<Rightarrow> Inl e | Inr c \<Rightarrow>
      (case py_mul 2 (noise_variance ms) of Inl e \<Rightarrow> Inl e | Inr s2 \<Rightarrow> py_div c s2))"

fun grad_loop :: "('n::finite, 'k::finite) SpaceTimePointwiseStateObservation \<Rightarrow>
    'n TimeDependentVector \<Rightarrow> time list \<Rightarrow> 'n TimeDependentVector \<Rightarrow>
    error + 'n TimeDependentVector" where
  "grad_loop ms u [] out = Inr out"
| "grad_loop ms u (t # ts) out =
     (case retrieve u t of Inl e \<Rightarrow> Inl e | Inr u_snapshot \<Rightarrow>
      (let Bu_snapshot = mult (B_obs ms) u_snapshot in
       case retrieve (d_obs ms) t of Inl e \<Rightarrow> Inl e | Inr d_snapshot \<Rightarrow>
       (let Bu_snapshot = axpy (- 1) d_snapshot Bu_snapshot in
        case py_div 1 (noise_variance ms) of Inl e \<Rightarrow> Inl e | Inr r \<Rightarrow>
        (let Bu_snapshot = scale r Bu_snapshot;
             u_snapshot = transpmult (B_obs ms) Bu_snapshot in
         case store out u_snapshot t of Inl e \<Rightarrow> Inl e | Inr out' \<Rightarrow>
           grad_loop ms u ts out'))))"

definition grad :: "('n::finite, 'k::finite) SpaceTimePointwiseStateObservation \<Rightarrow> int \<Rightarrow>
    ('n, 'q) xtriple \<Rightarrow> 'n TimeDependentVector \<Rightarrow> error + 'n TimeDependentVector" where
  \<comment> \<open>\<open>out\<close> is a container of its own, as at the call in \<open>solveAdj\<close>; the result is its
     new value\<close>
  "grad ms i x out =
     (let out = zero_T out in
      if i = STATE then grad_loop ms (x_STATE x) (observation_times ms) out
      else Inr out)"

fun misfit_apply_ij_loop :: "('n::finite, 'k::finite) SpaceTimePointwiseStateObservation \<Rightarrow>
    'n TimeDependentVector \<Rightarrow> time list \<Rightarrow> 'n TimeDependentVector \<Rightarrow>
    error + 'n TimeDependentVector" where
  "misfit_apply_ij_loop ms direction [] out = Inr out"
| "misfit_apply_ij_loop ms direction (t # ts) out =
     (case retrieve direction t of Inl e \<Rightarrow> Inl e | Inr u_snapshot \<Rightarrow>
      (let Bu_snapshot = mult (B_obs ms) u_snapshot in
       case py_div 1 (noise_variance ms) of Inl e \<Rightarrow> Inl e | Inr r \<Rightarrow>
       (let Bu_snapshot = scale r Bu_snapshot;
            u_snapshot = transpmult (B_obs ms) Bu_snapshot in
        case store out u_snapshot t of Inl e \<Rightarrow> Inl e | Inr out' \<Rightarrow>
          misfit_apply_ij_loop ms direction ts out')))"

definition misfit_apply_ij :: "('n::finite, 'k::finite) SpaceTimePointwiseStateObservation \<Rightarrow>
    int \<Rightarrow> int \<Rightarrow> 'n TimeDependentVector \<Rightarrow> 'n TimeDependentVector \<Rightarrow>
    error + 'n TimeDependentVector" where
  \<comment> \<open>\<open>SpaceTimePointwiseStateObservation.apply_ij\<close>; \<open>out\<close> is a container of its own\<close>
  "misfit_apply_ij ms i j direction out =
     (let out = zero_T out in
      if i = STATE \<and> j = STATE
      then misfit_apply_ij_loop ms direction (observation_times ms) out
      else Inr out)"

section \<open>The time-dependent model component\<close>

text \<open>
  The prior is an external collaborator: its precision operator \<open>R\<close>, its mean and the
  solver of its mass matrix (\<open>Msolver.solve(g, mg)\<close>, given as the function from \<open>mg\<close> to the
  new value of \<open>g\<close>).
\<close>

record 'q Prior =
  prior_R :: "('q, 'q) Matrix"
  prior_mean :: "'q Vector"
  prior_Msolver :: "'q Vector \<Rightarrow> 'q Vector"

text \<open>
  The assembly backend and the direct solver are external as well.  The weak form
  \<open>pde_varf(u, m, p)\<close> is bilinear in \<open>u\<close> and \<open>p\<close>; \<open>varf j m i\<close> is its value at
  the \<open>j\<close>-th basis function for \<open>u\<close> and the \<open>i\<close>-th basis function for \<open>p\<close>.  The
  assembled derivatives of the form at coefficient vectors are functions of these vectors:
  \<open>d_m u m p\<close> is \<open>assemble(derivative(pde_varf(u, m, p), m))\<close>, and
  \<open>d_m_u u m p dir\<close> is \<open>assemble(derivative(derivative(pde_varf(u, m, p), m, dir), u))\<close>,
  and so on for the other pairs.  \<open>PETScLUSolver A rhs\<close> is the value that
  \<open>solve(u, rhs)\<close> leaves in \<open>u\<close> when the operator of the solver is \<open>A\<close>.
\<close>

record ('n, 'q) dolfin =
  varf :: "'n \<Rightarrow> 'q Vector \<Rightarrow> 'n \<Rightarrow> real"
  d_m :: "'n Vector \<Rightarrow> 'q Vector \<Rightarrow> 'n Vector \<Rightarrow> 'q Vector"
  d_m_u :: "'n Vector \<Rightarrow> 'q Vector \<Rightarrow> 'n Vector \<Rightarrow> 'q Vector \<Rightarrow> 'n Vector"
  d_m_p :: "'n Vector \<Rightarrow> 'q Vector \<Rightarrow> 'n Vector \<Rightarrow> 'q Vector \<Rightarrow> 'n Vector"
  d_m_m :: "'n Vector \<Rightarrow> 'q Vector \<Rightarrow> 'n Vector \<Rightarrow> 'q Vector \<Rightarrow> 'q Vector"
  d_p_m :: "'n Vector \<Rightarrow> 'q Vector \<Rightarrow> 'n Vector \<Rightarrow> 'n Vector \<Rightarrow> 'q Vector"
  d_u_m :: "'n Vector \<Rightarrow> 'q Vector \<Rightarrow> 'n Vector \<Rightarrow> 'n Vector \<Rightarrow> 'q Vector"
  PETScLUSolver :: "('n, 'n) Matrix \<Rightarrow> 'n Vector \<Rightarrow> 'n Vector"

definition assemble :: "('n \<Rightarrow> 'n \<Rightarrow> real) \<Rightarrow> ('n, 'n) Matrix" where
  \<comment> \<open>the matrix of a bilinear form given as a function of the trial and of the test basis
     function: rows are test functions, columns are trial functions\<close>
  "assemble a = (\<lambda>i j. a j i)"

text \<open>
  The model object.  The fields \<open>N\<close>, \<open>L\<close>, \<open>solver\<close> and \<open>Nt\<close>, \<open>Lt\<close>, \<open>solvert\<close> do
  not exist before \<open>define_Fwd_solver\<close> and \<open>define_Adj_solver\<close> have run; a solver is
  represented by the operator it was given.  \<open>self.x\<close> is \<open>[None, None, None]\<close> until
  \<open>setPointForHessianEvaluations\<close> is called.
\<close>

record ('n, 'q, 'k) TimeDependentAD =
  self_prior :: "'q Prior"
  self_misfit :: "('n, 'k) SpaceTimePointwiseStateObservation"
  self_ic :: "'n Vector"
  self_simulation_times :: "time list"
  self_dt :: real
  self_stab :: "('n, 'n) Matrix"
  self_M :: "('n, 'n) Matrix"
  self_M_stab :: "('n, 'n) Matrix"
  self_Mt_stab :: "('n, 'n) Matrix"
  self_gauss_newton_approx :: bool
  self_x :: "('n, 'q) xtriple option"
  self_N :: "('n, 'n) Matrix option"
  self_L :: "('n, 'n) Matrix option"
  self_solver :: "('n, 'n) Matrix option"
  self_Nt :: "('n, 'n) Matrix option"
  self_Lt :: "('n, 'n) Matrix option"
  self_solvert :: "('n, 'n) Matrix option"

definition implicit_operator :: "('n, 'n) Matrix \<Rightarrow> real \<Rightarrow> ('n, 'n) Matrix \<Rightarrow>
    ('n, 'n) Matrix \<Rightarrow> ('n, 'n) Matrix" where
  \<comment> \<open>the matrix expression \<open>M + dt * N + stab\<close>\<close>
  "implicit_operator Mm h Nm Sm = (\<lambda>i j. Mm i j + h * Nm i j + Sm i j)"

definition define_Fwd_solver :: "('n, 'q) dolfin \<Rightarrow> ('n, 'q, 'k) TimeDependentAD \<Rightarrow>
    'q Vector \<Rightarrow> ('n, 'q, 'k) TimeDependentAD" where
  \<comment> \<open>the third argument is \<open>x[PARAMETER]\<close>\<close>
  "define_Fwd_solver dl self m =
     (let Nm = assemble (\<lambda>utrial utest. varf dl utrial m utest);
          Lm = implicit_operator (self_M self) (self_dt self) Nm (self_stab self)
      in self\<lparr>self_N := Some Nm, self_L := Some Lm, self_solver := Some Lm\<rparr>)"

definition define_Adj_solver :: "('n, 'q) dolfin \<Rightarrow> ('n, 'q, 'k) TimeDependentAD \<Rightarrow>
    'q Vector \<Rightarrow> ('n, 'q, 'k) TimeDependentAD" where
  "define_Adj_solver dl self m =
     (let Ntm = assemble (\<lambda>utrial utest. varf dl utest m utrial);
          Ltm = implicit_operator (self_M self) (self_dt self) Ntm (self_stab self)
      in self\<lparr>self_Nt := Some Ntm, self_Lt := Some Ltm, self_solvert := Some Ltm\<rparr>)"

subsection \<open>The adjoint solve\<close>

fun solveAdj_loop :: "('n::finite, 'q) dolfin \<Rightarrow> ('n, 'q, 'k) TimeDependentAD \<Rightarrow>
    'n TimeDependentVector \<Rightarrow> time list \<Rightarrow> 'n Vector \<Rightarrow> 'n TimeDependentVector \<Rightarrow>
    error + 'n TimeDependentVector" where
  "solveAdj_loop dl self grad_state [] pold out = Inr out"
| "solveAdj_loop dl self grad_state (t # ts) pold out =
     (let rhs = mult (self_Mt_stab self) pold in
      case retrieve grad_state t of Inl e \<Rightarrow> Inl e | Inr grad_state_snap \<Rightarrow>
      (let rhs = axpy (- 1) grad_state_snap rhs in
       case self_solvert self of None \<Rightarrow> Inl AttributeError | Some A \<Rightarrow>
       (let p = PETScLUSolver dl A rhs; pold = p in
        case store out p t of Inl e \<Rightarrow> Inl e | Inr out' \<Rightarrow>
          solveAdj_loop dl self grad_state ts pold out')))"

definition solveAdj :: "('n::finite, 'q) dolfin \<Rightarrow> ('n, 'q, 'k::finite) TimeDependentAD \<Rightarrow>
    'n TimeDependentVector \<Rightarrow> ('n, 'q) xtriple \<Rightarrow>
    error + ('n, 'q, 'k) TimeDependentAD \<times> 'n TimeDependentVector" where
  \<comment> \<open>the result is the model object with its adjoint solver and the new value of \<open>out\<close>;
     \<open>out\<close> is written only after everything was read from \<open>x\<close>\<close>
  "solveAdj dl self out x =
     (let grad_state = TimeDependentVector (self_simulation_times self) in
      case grad (self_misfit self) STATE x grad_state of Inl e \<Rightarrow> Inl e | Inr grad_state \<Rightarrow>
      (let self = define_Adj_solver dl self (x_PARAMETER x);
           out = zero_T out;
           pold = zero_V
       in case solveAdj_loop dl self grad_state (rev (self_simulation_times self)) pold out of
            Inl e \<Rightarrow> Inl e
          | Inr out \<Rightarrow> Inr (self, out)))"

subsection \<open>The incremental forward solve\<close>

fun solveFwdIncremental_loop :: "('n::finite, 'q) dolfin \<Rightarrow> ('n, 'q, 'k) TimeDependentAD \<Rightarrow>
    'n TimeDependentVector \<Rightarrow> time list \<Rightarrow> 'n Vector \<Rightarrow> 'n TimeDependentVector \<Rightarrow>
    error + 'n TimeDependentVector" where
  "solveFwdIncremental_loop dl self rhs [] uold sol = Inr sol"
| "solveFwdIncremental_loop dl self rhs (t # ts) uold sol =
     (let Muold = mult (self_M_stab self) uold in
      case retrieve rhs t of Inl e \<Rightarrow> Inl e | Inr myrhs \<Rightarrow>
      (let Muold = axpy (- 1) myrhs Muold in
       case self_solver self of None \<Rightarrow> Inl AttributeError | Some A \<Rightarrow>
       (let u = PETScLUSolver dl A Muold in
        case store sol u t of Inl e \<Rightarrow> Inl e | Inr sol' \<Rightarrow>
          solveFwdIncremental_loop dl self rhs ts u sol')))"

definition solveFwdIncremental :: "('n::finite, 'q) dolfin \<Rightarrow> ('n, 'q, 'k) TimeDependentAD \<Rightarrow>
    'n TimeDependentVector \<Rightarrow> 'n TimeDependentVector \<Rightarrow> error + 'n TimeDependentVector" where
  \<comment> \<open>\<open>sol\<close> and \<open>rhs\<close> are two containers; the result is the new value of \<open>sol\<close>\<close>
  "solveFwdIncremental dl self sol rhs =
     (let sol = zero_T sol;
          u = zero_V
      in case self_simulation_times self of [] \<Rightarrow> Inl IndexError | t # _ \<Rightarrow>
         (case store sol u t of Inl e \<Rightarrow> Inl e | Inr sol \<Rightarrow>
            solveFwdIncremental_loop dl self rhs (drop 1 (self_simulation_times self)) u sol))"

subsection \<open>Construction and the linearization point\<close>

text \<open>
  The constructor assembles the mass and stabilization matrices from the mesh and the wind
  field; they are arguments here.  The time step is the difference of the first two
  simulation times.
\<close>

definition TimeDependentAD_init :: "'q Prior \<Rightarrow> ('n, 'k) SpaceTimePointwiseStateObservation \<Rightarrow>
    time list \<Rightarrow> 'n Vector \<Rightarrow> ('n, 'n) Matrix \<Rightarrow> ('n, 'n) Matrix \<Rightarrow> ('n, 'n) Matrix \<Rightarrow>
    ('n, 'n) Matrix \<Rightarrow> error + ('n, 'q, 'k) TimeDependentAD" where
  "TimeDependentAD_init prior misfit simulation_times IC stab Mm Ms Mts =
     (case simulation_times of
        t0 # t1 # rest \<Rightarrow>
          Inr \<lparr>self_prior = prior, self_misfit = misfit, self_ic = IC,
               self_simulation_times = simulation_times, self_dt = t1 - t0,
               self_stab = stab, self_M = Mm, self_M_stab = Ms, self_Mt_stab = Mts,
               self_gauss_newton_approx = True, self_x = None,
               self_N = None, self_L = None, self_solver = None,
               self_Nt = None, self_Lt = None, self_solvert = None\<rparr>
      | _ \<Rightarrow> Inl IndexError)"

definition setPointForHessianEvaluations :: "('n, 'q, 'k) TimeDependentAD \<Rightarrow>
    ('n, 'q) xtriple \<Rightarrow> bool \<Rightarrow> ('n, 'q, 'k) TimeDependentAD" where
  "setPointForHessianEvaluations self x gauss_newton_approx =
     self\<lparr>self_x := Some x, self_gauss_newton_approx := gauss_newton_approx\<rparr>"

section \<open>Notions used to state the properties\<close>

definition residual :: "('n::finite, 'k::finite) SpaceTimePointwiseStateObservation \<Rightarrow>
    'n TimeDependentVector \<Rightarrow> time \<Rightarrow> 'k Vector" where
  \<comment> \<open>\<open>B u(t) - d(t)\<close>\<close>
  "residual ms u t = (\<lambda>i. mult (B_obs ms) (entry u t) i - entry (d_obs ms) t i)"

definition norm2 :: "('n::finite) Vector \<Rightarrow> real" where
  \<comment> \<open>the squared Euclidean norm\<close>
  "norm2 v = (\<Sum>i\<in>UNIV. (v i)\<^sup>2)"

definition BtB_over :: "('k::finite, 'n) Matrix \<Rightarrow> real \<Rightarrow> ('n, 'n) Matrix" where
  \<comment> \<open>the matrix \<open>B\<^sup>T B / s\<close>\<close>
  "BtB_over A s = (\<lambda>i j. (\<Sum>k\<in>UNIV. A k i * A k j) / s)"

definition sum_V :: "(time \<Rightarrow> 'q Vector) \<Rightarrow> time list \<Rightarrow> 'q Vector" where
  \<comment> \<open>the sum of the vectors \<open>f t\<close> over the times of a list\<close>
  "sum_V f ts = (\<lambda>i. \<Sum>t\<leftarrow>ts. f t i)"

definition metric_norm :: "('q Vector \<Rightarrow> 'q Vector) \<Rightarrow> ('q::finite) Vector \<Rightarrow> real" where
  \<comment> \<open>the norm of \<open>g\<close> in the metric of the solver of the prior's mass matrix: the square
     root of the inner product of \<open>g\<close> with the solution for \<open>g\<close>\<close>
  "metric_norm Msolver g = sqrt (inner (Msolver g) g)"

section \<open>The forward solve, on a store of objects\<close>

text \<open>
  The driver calls \<open>solveFwd(u, [u, m, p])\<close>: the output container and \<open>x[STATE]\<close> are one
  object.  The forward solve is therefore modelled on a store that maps references to
  objects; \<open>out\<close> and the three entries of \<open>x\<close> are references.  An object is a
  time-dependent vector or a plain vector of the parameter space.
\<close>

datatype ('n, 'q) pyobj = TDV "'n TimeDependentVector" | VEC "'q Vector"

type_synonym ('n, 'q) heap = "nat \<Rightarrow> ('n, 'q) pyobj"

record xrefs =
  ref_STATE :: nat
  ref_PARAMETER :: nat
  ref_ADJOINT :: "nat option"

definition zero_obj :: "('n, 'q) pyobj \<Rightarrow> ('n, 'q) pyobj" where
  \<comment> \<open>\<open>out.zero()\<close>, which both kinds of object have\<close>
  "zero_obj ob = (case ob of TDV c \<Rightarrow> TDV (zero_T c) | VEC v \<Rightarrow> VEC zero_V)"

fun solveFwd_loop :: "('n::finite, 'q) dolfin \<Rightarrow> ('n, 'q, 'k) TimeDependentAD \<Rightarrow> nat \<Rightarrow>
    time list \<Rightarrow> 'n Vector \<Rightarrow> ('n, 'q) heap \<Rightarrow> error + ('n, 'q) heap" where
  "solveFwd_loop dl self out [] uold h = Inr h"
| "solveFwd_loop dl self out (t # ts) uold h =
     (let rhs = mult (self_M_stab self) uold in
      case self_solver self of None \<Rightarrow> Inl AttributeError | Some A \<Rightarrow>
      (let u = PETScLUSolver dl A rhs in
       case h out of VEC v \<Rightarrow> Inl AttributeError
       | TDV c \<Rightarrow>
           (case store c u t of Inl e \<Rightarrow> Inl e
            | Inr c' \<Rightarrow> solveFwd_loop dl self out ts u (h(out := TDV c')))))"

definition solveFwd :: "('n::finite, 'q) dolfin \<Rightarrow> ('n, 'q, 'k) TimeDependentAD \<Rightarrow> nat \<Rightarrow>
    xrefs \<Rightarrow> ('n, 'q) heap \<Rightarrow> error + ('n, 'q, 'k) TimeDependentAD \<times> ('n, 'q) heap" where
  \<comment> \<open>\<open>uold\<close> is a copy of \<open>x[STATE].data[0]\<close>, the first vector of the container\<close>
  "solveFwd dl self out x h =
     (let h = h(out := zero_obj (h out)) in
      case h (ref_STATE x) of VEC v \<Rightarrow> Inl AttributeError
      | TDV c \<Rightarrow>
          (case store c (self_ic self) 0 of Inl e \<Rightarrow> Inl e
           | Inr c' \<Rightarrow>
               (let h = h(ref_STATE x := TDV c') in
                case c' of [] \<Rightarrow> Inl IndexError
                | (t0, v0) # rest \<Rightarrow>
                    (let uold = v0 in
                     case h (ref_PARAMETER x) of TDV cm \<Rightarrow> Inl TypeError
                     | VEC m \<Rightarrow>
                         (let self = define_Fwd_solver dl self m in
                          case solveFwd_loop dl self out (drop 1 (self_simulation_times self))
                                 uold h of
                            Inl e \<Rightarrow> Inl e
                          | Inr h \<Rightarrow> Inr (self, h))))))"

section \<open>The reduced gradient\<close>

fun updategrade_loop :: "('n, 'q) dolfin \<Rightarrow> ('n, 'q, 'k) TimeDependentAD \<Rightarrow> 'q Vector \<Rightarrow>
    'n TimeDependentVector \<Rightarrow> 'n TimeDependentVector \<Rightarrow> time list \<Rightarrow> 'q Vector \<Rightarrow>
    error + 'q Vector" where
  "updategrade_loop dl self m u p [] out = Inr out"
| "updategrade_loop dl self m u p (t # ts) out =
     (case retrieve u t of Inl e \<Rightarrow> Inl e | Inr utemp \<Rightarrow>
      (case retrieve p t of Inl e \<Rightarrow> Inl e | Inr ptemp \<Rightarrow>
       (let out = axpy 1 (d_m dl utemp m ptemp) out in
        updategrade_loop dl self m u p ts out)))"

definition updategrade :: "('n, 'q) dolfin \<Rightarrow> ('n, 'q, 'k) TimeDependentAD \<Rightarrow> 'q Vector \<Rightarrow>
    ('n, 'q) xtriple \<Rightarrow> error + 'q Vector" where
  \<comment> \<open>the result is the new value of \<open>out\<close>; \<open>x[ADJOINT].copy()\<close> fails on \<open>None\<close>\<close>
  "updategrade dl self out x =
     (let m = x_PARAMETER x;
          u = x_STATE x
      in case x_ADJOINT x of None \<Rightarrow> Inl AttributeError | Some p \<Rightarrow>
         (let out = zero_V in
          case updategrade_loop dl self m u p (drop 1 (self_simulation_times self)) out of
            Inl e \<Rightarrow> Inl e
          | Inr out \<Rightarrow> Inr (scale (self_dt self) out)))"

definition evalGradientParameter :: "('n, 'q::finite) dolfin \<Rightarrow> ('n, 'q, 'k) TimeDependentAD \<Rightarrow>
    ('n, 'q) xtriple \<Rightarrow> 'q Vector \<Rightarrow> bool \<Rightarrow> error + 'q Vector \<times> real" where
  \<comment> \<open>the result is the new value of \<open>mg\<close> and the returned number\<close>
  "evalGradientParameter dl self x mg misfit_only =
     (let mg = (if misfit_only = False
                then (let detm = (\<lambda>i. x_PARAMETER x i - prior_mean (self_prior self) i)
                      in mult (prior_R (self_prior self)) detm)
                else zero_V);
          mg1 = zero_V
      in case updategrade dl self mg1 x of Inl e \<Rightarrow> Inl e | Inr mg1 \<Rightarrow>
         (let mg = axpy 1 mg1 mg;
              g = prior_Msolver (self_prior self) mg;
              grad_norm = inner g mg
          in Inr (mg, grad_norm)))"

section \<open>The block dispatcher\<close>

text \<open>
  \<open>out\<close> and \<open>direction\<close> are a time-dependent vector or a plain vector, depending on the
  block; the operations that one of the two kinds does not have raise.  \<open>out\<close> is an object
  of its own, distinct from the direction and from the histories of the linearization
  point, and the results are its new values.  \<open>methodType\<close> is the constant 1 in the source, so only the
  branches that differentiate in the given direction are reachable.
\<close>

definition imul_obj :: "real \<Rightarrow> ('n, 'q) pyobj \<Rightarrow> ('n, 'q) pyobj" where
  \<comment> \<open>\<open>out *= a\<close>\<close>
  "imul_obj a ob = (case ob of TDV c \<Rightarrow> TDV (scale_T a c) | VEC v \<Rightarrow> VEC (scale a v))"

definition iadd_obj :: "('n, 'q) pyobj \<Rightarrow> 'q Vector \<Rightarrow> error + ('n, 'q) pyobj" where
  \<comment> \<open>\<open>out += myout\<close> for a vector \<open>myout\<close>\<close>
  "iadd_obj ob w = (case ob of TDV c \<Rightarrow> Inl TypeError | VEC v \<Rightarrow> Inr (VEC (axpy 1 w v)))"

definition store_obj :: "('n, 'q) pyobj \<Rightarrow> 'n Vector \<Rightarrow> time \<Rightarrow> error + ('n, 'q) pyobj" where
  \<comment> \<open>\<open>out.store(myout, t)\<close>\<close>
  "store_obj ob u t =
     (case ob of VEC v \<Rightarrow> Inl AttributeError
      | TDV c \<Rightarrow> (case store c u t of Inl e \<Rightarrow> Inl e | Inr c' \<Rightarrow> Inr (TDV c')))"

definition retrieve_obj :: "('n, 'q) pyobj \<Rightarrow> time \<Rightarrow> error + 'n Vector" where
  \<comment> \<open>\<open>direction.retrieve(buffer, t)\<close>\<close>
  "retrieve_obj ob t = (case ob of VEC v \<Rightarrow> Inl AttributeError | TDV c \<Rightarrow> retrieve c t)"

definition vector2Function :: "('n, 'q) pyobj \<Rightarrow> error + 'q Vector" where
  \<comment> \<open>\<open>vector2Function(direction, Vh[PARAMETER])\<close>, which needs a plain vector\<close>
  "vector2Function ob = (case ob of TDV c \<Rightarrow> Inl AttributeError | VEC v \<Rightarrow> Inr v)"

fun apply_ij_state_parameter_loop :: "('n, 'q) dolfin \<Rightarrow> ('n, 'q, 'k) TimeDependentAD \<Rightarrow>
    ('n, 'q) xtriple \<Rightarrow> ('n, 'q) pyobj \<Rightarrow> time list \<Rightarrow> ('n, 'q) pyobj \<Rightarrow>
    error + ('n, 'q) pyobj" where
  "apply_ij_state_parameter_loop dl self x direction [] out = Inr out"
| "apply_ij_state_parameter_loop dl self x direction (t # ts) out =
     (case retrieve (x_STATE x) t of Inl e \<Rightarrow> Inl e | Inr utemp \<Rightarrow>
      (case x_ADJOINT x of None \<Rightarrow> Inl AttributeError | Some p \<Rightarrow>
       (case retrieve p t of Inl e \<Rightarrow> Inl e | Inr ptemp \<Rightarrow>
        (case vector2Function direction of Inl e \<Rightarrow> Inl e | Inr dir \<Rightarrow>
         (let myout = d_m_u dl utemp (x_PARAMETER x) ptemp dir;
              myout = scale (self_dt self) myout
          in case store_obj out myout t of Inl e \<Rightarrow> Inl e
             | Inr out' \<Rightarrow> apply_ij_state_parameter_loop dl self x direction ts out')))))"

fun apply_ij_adjoint_parameter_loop :: "('n, 'q) dolfin \<Rightarrow> ('n, 'q, 'k) TimeDependentAD \<Rightarrow>
    ('n, 'q) xtriple \<Rightarrow> ('n, 'q) pyobj \<Rightarrow> time list \<Rightarrow> ('n, 'q) pyobj \<Rightarrow>
    error + ('n, 'q) pyobj" where
  "apply_ij_adjoint_parameter_loop dl self x direction [] out = Inr out"
| "apply_ij_adjoint_parameter_loop dl self x direction (t # ts) out =
     (case retrieve (x_STATE x) t of Inl e \<Rightarrow> Inl e | Inr utemp \<Rightarrow>
      (case x_ADJOINT x of None \<Rightarrow> Inl AttributeError | Some p \<Rightarrow>
       (case retrieve p t of Inl e \<Rightarrow> Inl e | Inr ptemp \<Rightarrow>
        (case vector2Function direction of Inl e \<Rightarrow> Inl e | Inr dir \<Rightarrow>
         (let myout = d_m_p dl utemp (x_PARAMETER x) ptemp dir;
              myout = scale (self_dt self) myout
          in case store_obj out myout t of Inl e \<Rightarrow> Inl e
             | Inr out' \<Rightarrow> apply_ij_adjoint_parameter_loop dl self x direction ts out')))))"

fun apply_ij_parameter_parameter_loop :: "('n, 'q) dolfin \<Rightarrow> ('n, 'q, 'k) TimeDependentAD \<Rightarrow>
    ('n, 'q) xtriple \<Rightarrow> ('n, 'q) pyobj \<Rightarrow> time list \<Rightarrow> ('n, 'q) pyobj \<Rightarrow>
    error + ('n, 'q) pyobj" where
  "apply_ij_parameter_parameter_loop dl self x direction [] out = Inr out"
| "apply_ij_parameter_parameter_loop dl self x direction (t # ts) out =
     (case retrieve (x_STATE x) t of Inl e \<Rightarrow> Inl e | Inr utemp \<Rightarrow>
      (case x_ADJOINT x of None \<Rightarrow> Inl AttributeError | Some p \<Rightarrow>
       (case retrieve p t of Inl e \<Rightarrow> Inl e | Inr ptemp \<Rightarrow>
        (case vector2Function direction of Inl e \<Rightarrow> Inl e | Inr dir \<Rightarrow>
         (let myout = d_m_m dl utemp (x_PARAMETER x) ptemp dir
          in case iadd_obj out myout of Inl e \<Rightarrow> Inl e
             | Inr out' \<Rightarrow> apply_ij_parameter_parameter_loop dl self x direction ts out')))))"

fun apply_ij_parameter_adjoint_loop :: "('n, 'q) dolfin \<Rightarrow> ('n, 'q, 'k) TimeDependentAD \<Rightarrow>
    ('n, 'q) xtriple \<Rightarrow> ('n, 'q) pyobj \<Rightarrow> time list \<Rightarrow> ('n, 'q) pyobj \<Rightarrow>
    error + ('n, 'q) pyobj" where
  "apply_ij_parameter_adjoint_loop dl self x direction [] out = Inr out"
| "apply_ij_parameter_adjoint_loop dl self x direction (t # ts) out =
     (case retrieve_obj direction t of Inl e \<Rightarrow> Inl e | Inr dpt \<Rightarrow>
      (case retrieve (x_STATE x) t of Inl e \<Rightarrow> Inl e | Inr utemp \<Rightarrow>
       (case x_ADJOINT x of None \<Rightarrow> Inl AttributeError | Some p \<Rightarrow>
        (case retrieve p t of Inl e \<Rightarrow> Inl e | Inr ptemp \<Rightarrow>
         (let myout = d_p_m dl utemp (x_PARAMETER x) ptemp dpt
          in case iadd_obj out myout of Inl e \<Rightarrow> Inl e
             | Inr out' \<Rightarrow> apply_ij_parameter_adjoint_loop dl self x direction ts out')))))"

fun apply_ij_parameter_state_loop :: "('n, 'q) dolfin \<Rightarrow> ('n, 'q, 'k) TimeDependentAD \<Rightarrow>
    ('n, 'q) xtriple \<Rightarrow> ('n, 'q) pyobj \<Rightarrow> time list \<Rightarrow> ('n, 'q) pyobj \<Rightarrow>
    error + ('n, 'q) pyobj" where
  "apply_ij_parameter_state_loop dl self x direction [] out = Inr out"
| "apply_ij_parameter_state_loop dl self x direction (t # ts) out =
     (case retrieve_obj direction t of Inl e \<Rightarrow> Inl e | Inr dut \<Rightarrow>
      (case retrieve (x_STATE x) t of Inl e \<Rightarrow> Inl e | Inr utemp \<Rightarrow>
       (case x_ADJOINT x of None \<Rightarrow> Inl AttributeError | Some p \<Rightarrow>
        (case retrieve p t of Inl e \<Rightarrow> Inl e | Inr ptemp \<Rightarrow>
         (let myout = d_u_m dl utemp (x_PARAMETER x) ptemp dut
          in case iadd_obj out myout of Inl e \<Rightarrow> Inl e
             | Inr out' \<Rightarrow> apply_ij_parameter_state_loop dl self x direction ts out')))))"

definition apply_ij :: "('n, 'q) dolfin \<Rightarrow> ('n, 'q, 'k) TimeDependentAD \<Rightarrow> int \<Rightarrow> int \<Rightarrow>
    ('n, 'q) pyobj \<Rightarrow> ('n, 'q) pyobj \<Rightarrow> error + ('n, 'q) pyobj" where
  \<comment> \<open>\<open>TimeDependentAD.apply_ij\<close>; with \<open>self.x = [None, None, None]\<close> the conversion of
     \<open>self.x[PARAMETER]\<close> raises\<close>
  "apply_ij dl self i j direction out =
     (let out = zero_obj out in
      if \<not> (i = STATE \<and> j = STATE) then
        (case self_x self of None \<Rightarrow> Inl TypeError | Some x \<Rightarrow>
         if i = STATE \<and> j = PARAMETER then
           (let myout = zero_V in
            case self_simulation_times self of [] \<Rightarrow> Inl IndexError | t # rest \<Rightarrow>
            (case store_obj out myout t of Inl e \<Rightarrow> Inl e | Inr out \<Rightarrow>
               apply_ij_state_parameter_loop dl self x direction
                 (drop 1 (self_simulation_times self)) out))
         else if i = ADJOINT \<and> j = PARAMETER then
           (let myout = zero_V in
            case self_simulation_times self of [] \<Rightarrow> Inl IndexError | t # rest \<Rightarrow>
            (case store_obj out myout t of Inl e \<Rightarrow> Inl e | Inr out \<Rightarrow>
               apply_ij_adjoint_parameter_loop dl self x direction
                 (drop 1 (self_simulation_times self)) out))
         else if i = PARAMETER \<and> j = PARAMETER then
           (case apply_ij_parameter_parameter_loop dl self x direction
                   (drop 1 (self_simulation_times self)) out of
              Inl e \<Rightarrow> Inl e
            | Inr out \<Rightarrow> Inr (imul_obj (self_dt self) out))
         else if i = PARAMETER \<and> j = ADJOINT then
           (case apply_ij_parameter_adjoint_loop dl self x direction
                   (drop 1 (self_simulation_times self)) out of
              Inl e \<Rightarrow> Inl e
            | Inr out \<Rightarrow> Inr (imul_obj (self_dt self) out))
         else if i = PARAMETER \<and> j = STATE then
           (case apply_ij_parameter_state_loop dl self x direction
                   (drop 1 (self_simulation_times self)) out of
              Inl e \<Rightarrow> Inl e
            | Inr out \<Rightarrow> Inr (imul_obj (self_dt self) out))
         else Inr out)
      else Inr out)"

section \<open>A small instance\<close>

text \<open>
  Two degrees of freedom for the state, one for the parameter, one observation target,
  the time grid \<open>0, 1, 2\<close> with observations at \<open>1\<close> and \<open>2\<close>.  The mass matrices are the
  identity, the transport matrix at the parameter \<open>1\<close> is the identity and the solver
  divides by the diagonal.
\<close>

definition example_misfit :: "(bool, unit) SpaceTimePointwiseStateObservation" where
  "example_misfit = \<lparr>observation_times = [1, 2],
     B_obs = (\<lambda>k n. if n then 1 else 0),
     d_obs = [(1, \<lambda>k. 1), (2, \<lambda>k. 0)],
     noise_variance = Some 2\<rparr>"

definition example_x :: "(bool, unit) xtriple" where
  "example_x = \<lparr>x_STATE = [(0, \<lambda>n. 0), (1, \<lambda>n. 3), (2, \<lambda>n. if n then 1 else 5)],
     x_PARAMETER = (\<lambda>q. 1),
     x_ADJOINT = Some [(0, \<lambda>n. 1), (1, \<lambda>n. if n then 2 else 0), (2, \<lambda>n. 4)]\<rparr>"

definition example_dl :: "(bool, unit) dolfin" where
  "example_dl = \<lparr>varf = (\<lambda>j m i. if i = j then m () else 0),
     d_m = (\<lambda>u m p q. m q * (u False * p False + u True * p True)),
     d_m_u = (\<lambda>u m p dir i. dir () * m () * p i),
     d_m_p = (\<lambda>u m p dir i. dir () * m () * u i),
     d_m_m = (\<lambda>u m p dir q. dir q * m q * (u False * p False + u True * p True)),
     d_p_m = (\<lambda>u m p dir q. m q * (u False * dir False + u True * dir True)),
     d_u_m = (\<lambda>u m p dir q. m q * (dir False * p False + dir True * p True)),
     PETScLUSolver = (\<lambda>A b i. b i / A i i)\<rparr>"

definition example_model :: "(bool, unit, unit) TimeDependentAD" where
  "example_model = \<lparr>
     self_prior = \<lparr>prior_R = (\<lambda>i j. 3), prior_mean = (\<lambda>q. 0),
                    prior_Msolver = (\<lambda>g q. g q / 4)\<rparr>,
     self_misfit = example_misfit,
     self_ic = (\<lambda>n. if n then 1 else 2),
     self_simulation_times = [0, 1, 2],
     self_dt = 1,
     self_stab = (\<lambda>i j. 0),
     self_M = (\<lambda>i j. if i = j then 1 else 0),
     self_M_stab = (\<lambda>i j. if i = j then 1 else 0),
     self_Mt_stab = (\<lambda>i j. if i = j then 1 else 0),
     self_gauss_newton_approx = True,
     self_x = Some example_x,
     self_N = None, self_L = None, self_solver = None,
     self_Nt = None, self_Lt = None, self_solvert = None\<rparr>"

definition example_L :: "(bool, bool) Matrix" where
  "example_L = (\<lambda>i j. if i = j then 2 else 0)"

definition example_rhs :: "bool TimeDependentVector" where
  "example_rhs = [(0, \<lambda>n. 1), (1, \<lambda>n. if n then 2 else 0), (2, \<lambda>n. 4)]"

definition example_out :: "bool TimeDependentVector" where
  "example_out = TimeDependentVector [0, 1, 2]"

text \<open>
  A store with the state history at reference 0, the parameter at 1, an adjoint history
  at 2 and a further container at 3.
\<close>

definition example_heap :: "(bool, unit) heap" where
  "example_heap = (\<lambda>r. VEC (\<lambda>q. 1))
     (0 := TDV (x_STATE example_x), 2 := TDV example_rhs, 3 := TDV example_out)"

definition example_xrefs :: xrefs where
  "example_xrefs = \<lparr>ref_STATE = 0, ref_PARAMETER = 1, ref_ADJOINT = Some 2\<rparr>"

section \<open>Facts about the container\<close>

lemma store_total: "t \<in> set (grid c) \<Longrightarrow> \<exists>c'. store c u t = Inr c'"
  by (induction c) (fastforce simp: grid_def)+

lemma store_grid: "store c u t = Inr c' \<Longrightarrow> grid c' = grid c"
  by (induction c arbitrary: c') (auto simp: grid_def split: if_splits sum.splits)

lemma retrieve_store:
  "store c u t = Inr c' \<Longrightarrow> retrieve c' s = (if s = t then Inr u else retrieve c s)"
  by (induction c arbitrary: c') (auto split: if_splits sum.splits)

lemma entry_store: "store c u t = Inr c' \<Longrightarrow> entry c' s = (if s = t then u else entry c s)"
  by (simp add: entry_def retrieve_store)

lemma retrieve_total: "t \<in> set (grid c) \<Longrightarrow> retrieve c t = Inr (entry c t)"
  by (induction c) (fastforce simp: grid_def entry_def)+

lemma grid_zero_T: "grid (zero_T c) = grid c"
  by (induction c) (auto simp: grid_def zero_T_def)

lemma entry_zero_T: "entry (zero_T c) t = zero_V"
  by (induction c) (auto simp: entry_def zero_T_def)


section \<open>The instance is a constructed model\<close>

lemma example_model_constructed:
  "TimeDependentAD_init (self_prior example_model) example_misfit [0, 1, 2]
     (\<lambda>n. if n then 1 else 2) (\<lambda>i j. 0) (\<lambda>i j. if i = j then 1 else 0)
     (\<lambda>i j. if i = j then 1 else 0) (\<lambda>i j. if i = j then 1 else 0) = Inr m0 \<Longrightarrow>
   setPointForHessianEvaluations m0 example_x True = example_model"
  by (auto simp: TimeDependentAD_init_def setPointForHessianEvaluations_def example_model_def)

section \<open>Facts about vectors\<close>

lemma axpy_minus: "axpy (- 1) x y = (\<lambda>i. y i - x i)"
  by (simp add: axpy_def)

lemma mult_zero_V: "mult A zero_V = zero_V"
  by (simp add: mult_def zero_V_def)

lemma grid_TimeDependentVector: "grid (TimeDependentVector ts) = ts"
  by (simp add: grid_def TimeDependentVector_def comp_def)

lemma axpy_residual:
  "axpy (- 1) (entry (d_obs ms) t) (mult (B_obs ms) (entry u t)) = residual ms u t"
  by (simp add: axpy_def residual_def)

lemma inner_self: "inner v v = norm2 v"
  by (simp add: inner_def norm2_def power2_eq_square)

lemma transpmult_scale_mult:
  fixes A :: "('k::finite, 'n::finite) Matrix"
  shows "transpmult A (scale (1 / s) (mult A v)) = mult (BtB_over A s) v"
proof
  fix i
  have "(\<Sum>k\<in>UNIV. A k i * (1 / s * (\<Sum>j\<in>UNIV. A k j * v j)))
      = (\<Sum>k\<in>UNIV. \<Sum>j\<in>UNIV. A k i * A k j / s * v j)"
    by (simp add: sum_distrib_left algebra_simps)
  also have "\<dots> = (\<Sum>j\<in>UNIV. \<Sum>k\<in>UNIV. A k i * A k j / s * v j)"
    by (rule sum.swap)
  also have "\<dots> = (\<Sum>j\<in>UNIV. (\<Sum>k\<in>UNIV. A k i * A k j) / s * v j)"
    by (simp add: sum_distrib_right sum_divide_distrib)
  finally show "transpmult A (scale (1 / s) (mult A v)) i = mult (BtB_over A s) v i"
    by (simp add: transpmult_def scale_def mult_def BtB_over_def)
qed

section \<open>The misfit component: cost, gradient and second derivative\<close>

lemma cost_loop_sum:
  "set ts \<subseteq> set (grid u) \<Longrightarrow> set ts \<subseteq> set (grid (d_obs ms)) \<Longrightarrow>
   cost_loop ms u ts c = Inr (c + (\<Sum>t\<leftarrow>ts. norm2 (residual ms u t)))"
  by (induction ts arbitrary: c)
     (simp_all add: retrieve_total axpy_residual inner_self add.assoc)

lemma grad_loop_entries:
  assumes "noise_variance ms = Some s" and "s \<noteq> 0"
  shows "set ts \<subseteq> set (grid u) \<Longrightarrow> set ts \<subseteq> set (grid (d_obs ms)) \<Longrightarrow>
   set ts \<subseteq> set (grid out) \<Longrightarrow>
   \<exists>out'. grad_loop ms u ts out = Inr out' \<and> grid out' = grid out \<and>
     (\<forall>t. entry out' t = (if t \<in> set ts
        then transpmult (B_obs ms) (scale (1 / s) (residual ms u t)) else entry out t))"
proof (induction ts arbitrary: out)
  case Nil
  then show ?case by simp
next
  case (Cons a ts)
  have "a \<in> set (grid out)" using Cons.prems by simp
  then obtain o1 where o1: "store out (transpmult (B_obs ms) (scale (1 / s) (residual ms u a))) a = Inr o1"
    using store_total by blast
  have g1: "grid o1 = grid out" using o1 by (rule store_grid)
  from Cons.IH[of o1] Cons.prems g1 obtain out' where
    r: "grad_loop ms u ts o1 = Inr out'" "grid out' = grid out"
    "\<forall>t. entry out' t = (if t \<in> set ts
        then transpmult (B_obs ms) (scale (1 / s) (residual ms u t)) else entry o1 t)"
    by auto
  have "grad_loop ms u (a # ts) out = Inr out'"
    using Cons.prems assms o1 r(1)
    by (simp add: retrieve_total axpy_residual py_div_def)
  moreover have "\<forall>t. entry out' t = (if t \<in> set (a # ts)
        then transpmult (B_obs ms) (scale (1 / s) (residual ms u t)) else entry out t)"
    using r(3) entry_store[OF o1] by auto
  ultimately show ?case using r(2) by blast
qed

lemma misfit_apply_ij_loop_entries:
  assumes "noise_variance ms = Some s" and "s \<noteq> 0"
  shows "set ts \<subseteq> set (grid direction) \<Longrightarrow> set ts \<subseteq> set (grid out) \<Longrightarrow>
   \<exists>out'. misfit_apply_ij_loop ms direction ts out = Inr out' \<and> grid out' = grid out \<and>
     (\<forall>t. entry out' t = (if t \<in> set ts
        then mult (BtB_over (B_obs ms) s) (entry direction t) else entry out t))"
proof (induction ts arbitrary: out)
  case Nil
  then show ?case by simp
next
  case (Cons a ts)
  have "a \<in> set (grid out)" using Cons.prems by simp
  then obtain o1 where o1: "store out (mult (BtB_over (B_obs ms) s) (entry direction a)) a = Inr o1"
    using store_total by blast
  have g1: "grid o1 = grid out" using o1 by (rule store_grid)
  from Cons.IH[of o1] Cons.prems g1 obtain out' where
    r: "misfit_apply_ij_loop ms direction ts o1 = Inr out'" "grid out' = grid out"
    "\<forall>t. entry out' t = (if t \<in> set ts
        then mult (BtB_over (B_obs ms) s) (entry direction t) else entry o1 t)"
    by auto
  have "misfit_apply_ij_loop ms direction (a # ts) out = Inr out'"
    using Cons.prems assms o1 r(1)
    by (simp add: retrieve_total py_div_def transpmult_scale_mult)
  moreover have "\<forall>t. entry out' t = (if t \<in> set (a # ts)
        then mult (BtB_over (B_obs ms) s) (entry direction t) else entry out t)"
    using r(3) entry_store[OF o1] by auto
  ultimately show ?case using r(2) by blast
qed

lemma grad_loop_grid: "grad_loop ms u ts out = Inr out' \<Longrightarrow> grid out' = grid out"
proof (induction ts arbitrary: out)
  case Nil
  then show ?case by simp
next
  case (Cons t ts)
  then show ?case
    by (auto simp: Let_def split: sum.splits dest: store_grid)
qed

lemma grad_grid: "grad ms i x out = Inr out' \<Longrightarrow> grid out' = grid out"
  by (auto simp: grad_def Let_def grid_zero_T split: if_splits dest: grad_loop_grid)

text \<open>
  Claim C6.  When the noise variance is set and not zero and the state history and the
  data have an entry at each observation time, \<open>cost(x)\<close> returns the sum over the
  observation times of the squared norm of \<open>B u(t) - d(t)\<close>, divided by twice the noise
  variance.  The sum ranges over \<open>observation_times\<close> only, so no other simulation time
  contributes.
\<close>

theorem cost_sum_over_observation_times:
  assumes "noise_variance ms = Some s" and "s \<noteq> 0"
    and "set (observation_times ms) \<subseteq> set (grid (x_STATE x))"
    and "set (observation_times ms) \<subseteq> set (grid (d_obs ms))"
  shows "cost ms x =
    Inr ((\<Sum>t\<leftarrow>observation_times ms. norm2 (residual ms (x_STATE x) t)) / (2 * s))"
  using assms by (simp add: cost_def cost_loop_sum py_mul_def py_div_def)

theorem cost_sum_over_observation_times_witness:
  "noise_variance example_misfit = Some 2 \<and> (2::real) \<noteq> 0 \<and>
   set (observation_times example_misfit) \<subseteq> set (grid (x_STATE example_x)) \<and>
   set (observation_times example_misfit) \<subseteq> set (grid (d_obs example_misfit)) \<and>
   cost example_misfit example_x = Inr (5 / 4)"
  using cost_sum_over_observation_times[of example_misfit 2 example_x]
  by (simp add: example_misfit_def example_x_def grid_def norm2_def residual_def mult_def
      entry_def UNIV_bool)

text \<open>
  Claim C7.  \<open>out\<close> is a container of its own.  For the state block, with the noise
  variance set and not zero and every
  observation time on the grids of the state history, of the data and of \<open>out\<close>,
  \<open>grad\<close> leaves in \<open>out\<close> the vector \<open>B\<^sup>T ((B u(t) - d(t)) / \<sigma>\<^sup>2)\<close> at each
  observation time \<open>t\<close> and the zero vector at every other time.  For every other
  block index the call succeeds and every entry of \<open>out\<close> is the zero vector.
\<close>

theorem grad_state_block_only:
  "(noise_variance ms = Some s \<and> s \<noteq> 0 \<and>
    set (observation_times ms) \<subseteq> set (grid (x_STATE x)) \<and>
    set (observation_times ms) \<subseteq> set (grid (d_obs ms)) \<and>
    set (observation_times ms) \<subseteq> set (grid out) \<longrightarrow>
    (\<exists>out'. grad ms STATE x out = Inr out' \<and> grid out' = grid out \<and>
      (\<forall>t. entry out' t = (if t \<in> set (observation_times ms)
         then transpmult (B_obs ms) (scale (1 / s) (residual ms (x_STATE x) t))
         else zero_V)))) \<and>
   (i \<noteq> STATE \<longrightarrow>
    (\<exists>out'. grad ms i x out = Inr out' \<and> grid out' = grid out \<and>
      (\<forall>t. entry out' t = zero_V)))"
proof (intro conjI impI)
  assume h: "noise_variance ms = Some s \<and> s \<noteq> 0 \<and>
    set (observation_times ms) \<subseteq> set (grid (x_STATE x)) \<and>
    set (observation_times ms) \<subseteq> set (grid (d_obs ms)) \<and>
    set (observation_times ms) \<subseteq> set (grid out)"
  then show "\<exists>out'. grad ms STATE x out = Inr out' \<and> grid out' = grid out \<and>
      (\<forall>t. entry out' t = (if t \<in> set (observation_times ms)
         then transpmult (B_obs ms) (scale (1 / s) (residual ms (x_STATE x) t))
         else zero_V))"
    using grad_loop_entries[of ms s "observation_times ms" "x_STATE x" "zero_T out"]
    by (auto simp add: grad_def grid_zero_T entry_zero_T)
next
  assume "i \<noteq> STATE"
  then show "\<exists>out'. grad ms i x out = Inr out' \<and> grid out' = grid out \<and>
      (\<forall>t. entry out' t = zero_V)"
    by (simp add: grad_def grid_zero_T entry_zero_T)
qed

theorem grad_state_block_only_witness:
  "(\<exists>out'. grad example_misfit STATE example_x example_out = Inr out' \<and>
      grid out' = [0, 1, 2] \<and>
      entry out' 0 = zero_V \<and> entry out' 1 True = 1 \<and> entry out' 2 True = 1 / 2) \<and>
   (\<exists>out'. grad example_misfit PARAMETER example_x example_out = Inr out' \<and>
      entry out' 1 = zero_V)"
proof -
  have h: "noise_variance example_misfit = Some 2 \<and> (2::real) \<noteq> 0 \<and>
    set (observation_times example_misfit) \<subseteq> set (grid (x_STATE example_x)) \<and>
    set (observation_times example_misfit) \<subseteq> set (grid (d_obs example_misfit)) \<and>
    set (observation_times example_misfit) \<subseteq> set (grid example_out)"
    by (simp add: example_misfit_def example_x_def example_out_def grid_def
        TimeDependentVector_def)
  have p: "PARAMETER \<noteq> STATE" by (simp add: PARAMETER_def STATE_def)
  note inst = grad_state_block_only[of example_misfit 2 example_x example_out PARAMETER]
  from inst h obtain o1 where o1: "grad example_misfit STATE example_x example_out = Inr o1"
    "grid o1 = grid example_out"
    "\<forall>t. entry o1 t = (if t \<in> set (observation_times example_misfit)
         then transpmult (B_obs example_misfit)
                (scale (1 / 2) (residual example_misfit (x_STATE example_x) t))
         else zero_V)"
    by blast
  from inst p obtain o2 where o2: "grad example_misfit PARAMETER example_x example_out = Inr o2"
    "\<forall>t. entry o2 t = zero_V"
    by blast
  have g: "grid o1 = [0, 1, 2]"
    using o1(2) by (simp add: example_out_def grid_TimeDependentVector)
  have e0: "entry o1 0 = zero_V" using o1(3) by (simp add: example_misfit_def)
  have e1: "entry o1 1 True = 1"
    using o1(3) by (simp add: example_misfit_def example_x_def transpmult_def scale_def
        residual_def mult_def entry_def UNIV_bool)
  have e2: "entry o1 2 True = 1 / 2"
    using o1(3) by (simp add: example_misfit_def example_x_def transpmult_def scale_def
        residual_def mult_def entry_def UNIV_bool)
  from o1(1) g e0 e1 e2 o2 show ?thesis by blast
qed

text \<open>
  Claim C8.  \<open>out\<close> is a container of its own.  For the state-state block, with the
  noise variance set and not zero and
  every observation time on the grids of the direction and of \<open>out\<close>, the misfit's
  \<open>apply_ij\<close> leaves in \<open>out\<close> the product of the matrix \<open>B\<^sup>T B / \<sigma>\<^sup>2\<close> with the
  direction at each observation time and the zero vector at every other time.  For every
  other pair of block indices the call succeeds and every entry of \<open>out\<close> is zero.
\<close>

theorem misfit_apply_ij_state_state_only:
  "(noise_variance ms = Some s \<and> s \<noteq> 0 \<and>
    set (observation_times ms) \<subseteq> set (grid direction) \<and>
    set (observation_times ms) \<subseteq> set (grid out) \<longrightarrow>
    (\<exists>out'. misfit_apply_ij ms STATE STATE direction out = Inr out' \<and> grid out' = grid out \<and>
      (\<forall>t. entry out' t = (if t \<in> set (observation_times ms)
         then mult (BtB_over (B_obs ms) s) (entry direction t)
         else zero_V)))) \<and>
   (\<not> (i = STATE \<and> j = STATE) \<longrightarrow>
    (\<exists>out'. misfit_apply_ij ms i j direction out = Inr out' \<and> grid out' = grid out \<and>
      (\<forall>t. entry out' t = zero_V)))"
proof (intro conjI impI)
  assume h: "noise_variance ms = Some s \<and> s \<noteq> 0 \<and>
    set (observation_times ms) \<subseteq> set (grid direction) \<and>
    set (observation_times ms) \<subseteq> set (grid out)"
  then show "\<exists>out'. misfit_apply_ij ms STATE STATE direction out = Inr out' \<and> grid out' = grid out \<and>
      (\<forall>t. entry out' t = (if t \<in> set (observation_times ms)
         then mult (BtB_over (B_obs ms) s) (entry direction t)
         else zero_V))"
    using misfit_apply_ij_loop_entries[of ms s "observation_times ms" direction "zero_T out"]
    by (auto simp add: misfit_apply_ij_def grid_zero_T entry_zero_T)
next
  assume "\<not> (i = STATE \<and> j = STATE)"
  then show "\<exists>out'. misfit_apply_ij ms i j direction out = Inr out' \<and> grid out' = grid out \<and>
      (\<forall>t. entry out' t = zero_V)"
    by (auto simp add: misfit_apply_ij_def grid_zero_T entry_zero_T)
qed

theorem misfit_apply_ij_state_state_only_witness:
  "(\<exists>out'. misfit_apply_ij example_misfit STATE STATE example_rhs example_out = Inr out' \<and>
      grid out' = [0, 1, 2] \<and>
      entry out' 0 = zero_V \<and> entry out' 1 True = 1 \<and> entry out' 2 True = 2) \<and>
   (\<exists>out'. misfit_apply_ij example_misfit STATE PARAMETER example_rhs example_out = Inr out' \<and>
      entry out' 1 = zero_V)"
proof -
  have h: "noise_variance example_misfit = Some 2 \<and> (2::real) \<noteq> 0 \<and>
    set (observation_times example_misfit) \<subseteq> set (grid example_rhs) \<and>
    set (observation_times example_misfit) \<subseteq> set (grid example_out)"
    by (simp add: example_misfit_def example_rhs_def example_out_def grid_def
        TimeDependentVector_def)
  have p: "\<not> (STATE = STATE \<and> PARAMETER = STATE)" by (simp add: PARAMETER_def STATE_def)
  note inst = misfit_apply_ij_state_state_only[of example_misfit 2 example_rhs example_out
      STATE PARAMETER]
  from inst h obtain o1 where
    o1: "misfit_apply_ij example_misfit STATE STATE example_rhs example_out = Inr o1"
    "grid o1 = grid example_out"
    "\<forall>t. entry o1 t = (if t \<in> set (observation_times example_misfit)
         then mult (BtB_over (B_obs example_misfit) 2) (entry example_rhs t)
         else zero_V)"
    by blast
  from inst p obtain o2 where
    o2: "misfit_apply_ij example_misfit STATE PARAMETER example_rhs example_out = Inr o2"
    "\<forall>t. entry o2 t = zero_V"
    by blast
  have g: "grid o1 = [0, 1, 2]"
    using o1(2) by (simp add: example_out_def grid_TimeDependentVector)
  have e0: "entry o1 0 = zero_V" using o1(3) by (simp add: example_misfit_def)
  have e1: "entry o1 1 True = 1"
    using o1(3) by (simp add: example_misfit_def example_rhs_def BtB_over_def
        mult_def entry_def UNIV_bool)
  have e2: "entry o1 2 True = 2"
    using o1(3) by (simp add: example_misfit_def example_rhs_def BtB_over_def
        mult_def entry_def UNIV_bool)
  from o1(1) g e0 e1 e2 o2 show ?thesis by blast
qed

section \<open>The incremental forward solve\<close>

lemma solveFwdIncremental_loop_steps:
  assumes "self_solver self = Some A"
  shows "distinct ts \<Longrightarrow> set ts \<subseteq> set (grid sol) \<Longrightarrow> set ts \<subseteq> set (grid rhs) \<Longrightarrow>
   \<exists>sol'. solveFwdIncremental_loop dl self rhs ts uold sol = Inr sol' \<and> grid sol' = grid sol \<and>
     (\<forall>s. s \<notin> set ts \<longrightarrow> entry sol' s = entry sol s) \<and>
     (\<forall>k<length ts. entry sol' (ts ! k) =
        PETScLUSolver dl A (axpy (- 1) (entry rhs (ts ! k))
          (mult (self_M_stab self) (if k = 0 then uold else entry sol' (ts ! (k - 1))))))"
proof (induction ts arbitrary: uold sol)
  case Nil
  then show ?case by simp
next
  case (Cons t ts)
  define u where "u = PETScLUSolver dl A (axpy (- 1) (entry rhs t) (mult (self_M_stab self) uold))"
  have "t \<in> set (grid sol)" using Cons.prems by simp
  then obtain s1 where s1: "store sol u t = Inr s1"
    using store_total by blast
  have g1: "grid s1 = grid sol" using s1 by (rule store_grid)
  from Cons.IH[of s1 u] Cons.prems g1 obtain sol' where
    r: "solveFwdIncremental_loop dl self rhs ts u s1 = Inr sol'" "grid sol' = grid sol"
    "\<forall>s. s \<notin> set ts \<longrightarrow> entry sol' s = entry s1 s"
    "\<forall>k<length ts. entry sol' (ts ! k) =
        PETScLUSolver dl A (axpy (- 1) (entry rhs (ts ! k))
          (mult (self_M_stab self) (if k = 0 then u else entry sol' (ts ! (k - 1)))))"
    by auto
  have run: "solveFwdIncremental_loop dl self rhs (t # ts) uold sol = Inr sol'"
    using Cons.prems assms s1 r(1) by (simp add: retrieve_total u_def)
  have t_notin: "t \<notin> set ts" using Cons.prems by simp
  have et: "entry sol' t = u"
    using r(3) t_notin entry_store[OF s1] by simp
  have frame: "\<forall>s. s \<notin> set (t # ts) \<longrightarrow> entry sol' s = entry sol s"
    using r(3) entry_store[OF s1] by simp
  have steps: "\<forall>k<length (t # ts). entry sol' ((t # ts) ! k) =
        PETScLUSolver dl A (axpy (- 1) (entry rhs ((t # ts) ! k))
          (mult (self_M_stab self) (if k = 0 then uold else entry sol' ((t # ts) ! (k - 1)))))"
  proof (intro allI impI)
    fix k assume k: "k < length (t # ts)"
    show "entry sol' ((t # ts) ! k) =
        PETScLUSolver dl A (axpy (- 1) (entry rhs ((t # ts) ! k))
          (mult (self_M_stab self) (if k = 0 then uold else entry sol' ((t # ts) ! (k - 1)))))"
    proof (cases k)
      case 0
      then show ?thesis using et by (simp add: u_def)
    next
      case (Suc j)
      then have j: "j < length ts" using k by simp
      show ?thesis
      proof (cases j)
        case 0
        then show ?thesis using Suc r(4) j et by simp
      next
        case (Suc i)
        then show ?thesis using \<open>k = Suc j\<close> r(4) j by simp
      qed
    qed
  qed
  from run r(2) frame steps show ?case by blast
qed

text \<open>
  Claim C9.  Let the forward solver hold the operator \<open>L\<close> (as \<open>define_Fwd_solver\<close> left
  it) and solve exactly, let the simulation times be distinct and on the grid of \<open>sol\<close>,
  and let \<open>rhs\<close> have an entry at each simulation time after the first.  Then
  \<open>solveFwdIncremental\<close> succeeds, the entry of \<open>sol\<close> at the first time is the zero vector,
  and at each later time \<open>t\<close> with predecessor \<open>t'\<close> the stored increment satisfies
  \<open>L \<delta>u(t) = M_stab \<delta>u(t') - rhs(t)\<close>.
\<close>

theorem solveFwdIncremental_marches:
  assumes "self_solver self = Some L"
    and "\<forall>b. mult L (PETScLUSolver dl L b) = b"
    and "self_simulation_times self = t0 # ts"
    and "distinct (t0 # ts)"
    and "set (t0 # ts) \<subseteq> set (grid sol)"
    and "set ts \<subseteq> set (grid rhs)"
  shows "\<exists>sol'. solveFwdIncremental dl self sol rhs = Inr sol' \<and> grid sol' = grid sol \<and>
     entry sol' t0 = zero_V \<and>
     (\<forall>k<length ts. mult L (entry sol' (ts ! k)) =
        (\<lambda>i. mult (self_M_stab self) (entry sol' ((t0 # ts) ! k)) i - entry rhs (ts ! k) i))"
proof -
  have "t0 \<in> set (grid (zero_T sol))" using assms(5) by (simp add: grid_zero_T)
  then obtain s0 where s0: "store (zero_T sol) zero_V t0 = Inr s0"
    using store_total by blast
  have g0: "grid s0 = grid sol" using store_grid[OF s0] by (simp add: grid_zero_T)
  have e0: "entry s0 s = zero_V" for s
    using entry_store[OF s0] by (simp add: entry_zero_T)
  from solveFwdIncremental_loop_steps[OF assms(1), of ts s0 rhs dl zero_V] assms g0
  obtain sol' where
    r: "solveFwdIncremental_loop dl self rhs ts zero_V s0 = Inr sol'" "grid sol' = grid sol"
    "\<forall>s. s \<notin> set ts \<longrightarrow> entry sol' s = entry s0 s"
    "\<forall>k<length ts. entry sol' (ts ! k) =
        PETScLUSolver dl L (axpy (- 1) (entry rhs (ts ! k))
          (mult (self_M_stab self) (if k = 0 then zero_V else entry sol' (ts ! (k - 1)))))"
    by auto
  have run: "solveFwdIncremental dl self sol rhs = Inr sol'"
    using assms(3) s0 r(1) by (simp add: solveFwdIncremental_def)
  have z: "entry sol' t0 = zero_V" using r(3) assms(4) e0 by simp
  have prev: "(if k = 0 then zero_V else entry sol' (ts ! (k - 1))) = entry sol' ((t0 # ts) ! k)" for k
    using z by (cases k) simp_all
  have "\<forall>k<length ts. mult L (entry sol' (ts ! k)) =
        (\<lambda>i. mult (self_M_stab self) (entry sol' ((t0 # ts) ! k)) i - entry rhs (ts ! k) i)"
    using r(4) assms(2) by (simp add: prev axpy_minus)
  with run r(2) z show ?thesis by blast
qed

lemma example_solver_exact: "\<forall>b. mult example_L (PETScLUSolver example_dl example_L b) = b"
  by (simp add: mult_def example_L_def example_dl_def UNIV_bool fun_eq_iff)

lemma example_Fwd_solver:
  "self_solver (define_Fwd_solver example_dl example_model (\<lambda>q. 1)) = Some example_L"
  by (simp add: define_Fwd_solver_def example_dl_def example_model_def example_L_def
      implicit_operator_def assemble_def fun_eq_iff Let_def)

theorem solveFwdIncremental_marches_witness:
  "\<exists>sol'. solveFwdIncremental example_dl (define_Fwd_solver example_dl example_model (\<lambda>q. 1))
       example_out example_rhs = Inr sol' \<and> grid sol' = grid example_out \<and>
     entry sol' 0 = zero_V \<and>
     mult example_L (entry sol' 1) =
       (\<lambda>i. mult (self_M_stab (define_Fwd_solver example_dl example_model (\<lambda>q. 1)))
              (entry sol' 0) i - entry example_rhs 1 i) \<and>
     mult example_L (entry sol' 2) =
       (\<lambda>i. mult (self_M_stab (define_Fwd_solver example_dl example_model (\<lambda>q. 1)))
              (entry sol' 1) i - entry example_rhs 2 i)"
proof -
  have t: "self_simulation_times (define_Fwd_solver example_dl example_model (\<lambda>q. 1)) = 0 # [1, 2]"
    by (simp add: define_Fwd_solver_def example_model_def Let_def)
  have d: "distinct (0 # [1, 2 :: real])" by simp
  have g: "set (0 # [1, 2]) \<subseteq> set (grid example_out)"
    by (simp add: example_out_def grid_def TimeDependentVector_def)
  have r: "set [1, 2] \<subseteq> set (grid example_rhs)"
    by (simp add: example_rhs_def grid_def)
  from solveFwdIncremental_marches[OF example_Fwd_solver example_solver_exact t d g r]
  obtain sol' where s: "solveFwdIncremental example_dl
       (define_Fwd_solver example_dl example_model (\<lambda>q. 1)) example_out example_rhs = Inr sol'"
    "grid sol' = grid example_out" "entry sol' 0 = zero_V"
    "\<forall>k<length [1, 2 :: real]. mult example_L (entry sol' ([1, 2] ! k)) =
        (\<lambda>i. mult (self_M_stab (define_Fwd_solver example_dl example_model (\<lambda>q. 1)))
                (entry sol' ((0 # [1, 2]) ! k)) i - entry example_rhs ([1, 2] ! k) i)"
    by blast
  from s(4)[rule_format, of 0] have k0: "mult example_L (entry sol' ([1, 2] ! 0)) =
        (\<lambda>i. mult (self_M_stab (define_Fwd_solver example_dl example_model (\<lambda>q. 1)))
                (entry sol' ((0 # [1, 2]) ! 0)) i - entry example_rhs ([1, 2] ! 0) i)"
    by simp
  from s(4)[rule_format, of "Suc 0"] have k1: "mult example_L (entry sol' ([1, 2] ! Suc 0)) =
        (\<lambda>i. mult (self_M_stab (define_Fwd_solver example_dl example_model (\<lambda>q. 1)))
                (entry sol' ((0 # [1, 2]) ! Suc 0)) i - entry example_rhs ([1, 2] ! Suc 0) i)"
    by simp
  from s(1,2,3) k0 k1 show ?thesis by simp
qed

section \<open>The adjoint solve\<close>

lemma solveAdj_loop_steps:
  assumes "self_solvert self = Some A"
  shows "distinct ts \<Longrightarrow> set ts \<subseteq> set (grid out) \<Longrightarrow> set ts \<subseteq> set (grid gs) \<Longrightarrow>
   \<exists>out'. solveAdj_loop dl self gs ts pold out = Inr out' \<and> grid out' = grid out \<and>
     (\<forall>s. s \<notin> set ts \<longrightarrow> entry out' s = entry out s) \<and>
     (\<forall>k<length ts. entry out' (ts ! k) =
        PETScLUSolver dl A (axpy (- 1) (entry gs (ts ! k))
          (mult (self_Mt_stab self) (if k = 0 then pold else entry out' (ts ! (k - 1))))))"
proof (induction ts arbitrary: pold out)
  case Nil
  then show ?case by simp
next
  case (Cons t ts)
  define p where "p = PETScLUSolver dl A (axpy (- 1) (entry gs t) (mult (self_Mt_stab self) pold))"
  have "t \<in> set (grid out)" using Cons.prems by simp
  then obtain o1 where o1: "store out p t = Inr o1"
    using store_total by blast
  have g1: "grid o1 = grid out" using o1 by (rule store_grid)
  from Cons.IH[of o1 p] Cons.prems g1 obtain out' where
    r: "solveAdj_loop dl self gs ts p o1 = Inr out'" "grid out' = grid out"
    "\<forall>s. s \<notin> set ts \<longrightarrow> entry out' s = entry o1 s"
    "\<forall>k<length ts. entry out' (ts ! k) =
        PETScLUSolver dl A (axpy (- 1) (entry gs (ts ! k))
          (mult (self_Mt_stab self) (if k = 0 then p else entry out' (ts ! (k - 1)))))"
    by auto
  have run: "solveAdj_loop dl self gs (t # ts) pold out = Inr out'"
    using Cons.prems assms o1 r(1) by (simp add: retrieve_total p_def)
  have t_notin: "t \<notin> set ts" using Cons.prems by simp
  have et: "entry out' t = p"
    using r(3) t_notin entry_store[OF o1] by simp
  have frame: "\<forall>s. s \<notin> set (t # ts) \<longrightarrow> entry out' s = entry out s"
    using r(3) entry_store[OF o1] by simp
  have steps: "\<forall>k<length (t # ts). entry out' ((t # ts) ! k) =
        PETScLUSolver dl A (axpy (- 1) (entry gs ((t # ts) ! k))
          (mult (self_Mt_stab self) (if k = 0 then pold else entry out' ((t # ts) ! (k - 1)))))"
  proof (intro allI impI)
    fix k assume k: "k < length (t # ts)"
    show "entry out' ((t # ts) ! k) =
        PETScLUSolver dl A (axpy (- 1) (entry gs ((t # ts) ! k))
          (mult (self_Mt_stab self) (if k = 0 then pold else entry out' ((t # ts) ! (k - 1)))))"
    proof (cases k)
      case 0
      then show ?thesis using et by (simp add: p_def)
    next
      case (Suc j)
      then have j: "j < length ts" using k by simp
      show ?thesis
      proof (cases j)
        case 0
        then show ?thesis using Suc r(4) j et by simp
      next
        case (Suc i)
        then show ?thesis using \<open>k = Suc j\<close> r(4) j by simp
      qed
    qed
  qed
  from run r(2) frame steps show ?case by blast
qed

text \<open>
  Claim C4.  Let \<open>Lt\<close> be the operator \<open>M + dt Nt + stab\<close> that \<open>define_Adj_solver\<close> builds
  at the parameter of \<open>x\<close>, where \<open>Nt\<close> is assembled from the weak form with trial and test
  function exchanged, let \<open>gs\<close> be the state gradient of the misfit, let the adjoint solver
  be exact and the simulation times distinct and on the grid of \<open>out\<close>.  Then \<open>solveAdj\<close>
  succeeds with \<open>Lt\<close> as the operator of its solver, and at every simulation time \<open>t\<close> the
  stored adjoint satisfies \<open>Lt p(t) = Mt_stab p(t') - gs(t)\<close> with \<open>t'\<close> the next simulation
  time; at the last time the term with \<open>Mt_stab\<close> is zero.  Every simulation time,
  the first one included, has its entry.
\<close>

theorem solveAdj_marches_backward:
  assumes Lt: "Lt = implicit_operator (self_M self) (self_dt self)
                 (assemble (\<lambda>utrial utest. varf dl utest (x_PARAMETER x) utrial)) (self_stab self)"
    and gs: "grad (self_misfit self) STATE x (TimeDependentVector (self_simulation_times self)) = Inr gs"
    and exact: "\<forall>b. mult Lt (PETScLUSolver dl Lt b) = b"
    and dist: "distinct (self_simulation_times self)"
    and sub: "set (self_simulation_times self) \<subseteq> set (grid out)"
  shows "\<exists>self' out'. solveAdj dl self out x = Inr (self', out') \<and>
     self_Lt self' = Some Lt \<and> self_solvert self' = Some Lt \<and> grid out' = grid out \<and>
     (\<forall>k<length (self_simulation_times self).
        mult Lt (entry out' (self_simulation_times self ! k)) =
        (\<lambda>i. (if Suc k < length (self_simulation_times self)
               then mult (self_Mt_stab self) (entry out' (self_simulation_times self ! Suc k)) i
               else 0)
             - entry gs (self_simulation_times self ! k) i))"
proof -
  define times where "times = self_simulation_times self"
  define self1 where "self1 = define_Adj_solver dl self (x_PARAMETER x)"
  have s1: "self_solvert self1 = Some Lt" "self_Lt self1 = Some Lt"
    "self_Mt_stab self1 = self_Mt_stab self"
    "self_simulation_times self1 = self_simulation_times self"
    by (simp_all add: self1_def define_Adj_solver_def Let_def Lt)
  have ggs: "grid gs = times"
    using grad_grid[OF gs] by (simp add: grid_TimeDependentVector times_def)
  from solveAdj_loop_steps[OF s1(1), of "rev times" "zero_T out" gs dl zero_V] dist sub ggs
  obtain out' where
    r: "solveAdj_loop dl self1 gs (rev times) zero_V (zero_T out) = Inr out'"
    "grid out' = grid out"
    "\<forall>k<length times. entry out' (rev times ! k) =
        PETScLUSolver dl Lt (axpy (- 1) (entry gs (rev times ! k))
          (mult (self_Mt_stab self) (if k = 0 then zero_V else entry out' (rev times ! (k - 1)))))"
    by (auto simp: times_def grid_zero_T s1(3))
  have run: "solveAdj dl self out x = Inr (self1, out')"
    using gs r(1) s1(4) by (simp add: solveAdj_def Let_def self1_def[symmetric] times_def)
  have steps: "\<forall>k<length times. mult Lt (entry out' (times ! k)) =
        (\<lambda>i. (if Suc k < length times then mult (self_Mt_stab self) (entry out' (times ! Suc k)) i
               else 0) - entry gs (times ! k) i)"
  proof (intro allI impI)
    fix k assume k: "k < length times"
    define j where "j = length times - Suc k"
    have j: "j < length times" using k by (simp add: j_def)
    have tk: "rev times ! j = times ! k" using k by (simp add: j_def rev_nth)
    from r(3) j tk have e: "entry out' (times ! k) =
        PETScLUSolver dl Lt (axpy (- 1) (entry gs (times ! k))
          (mult (self_Mt_stab self) (if j = 0 then zero_V else entry out' (rev times ! (j - 1)))))"
      by metis
    show "mult Lt (entry out' (times ! k)) =
        (\<lambda>i. (if Suc k < length times then mult (self_Mt_stab self) (entry out' (times ! Suc k)) i
               else 0) - entry gs (times ! k) i)"
    proof (cases "Suc k < length times")
      case True
      then have "j \<noteq> 0" by (simp add: j_def)
      moreover have "rev times ! (j - 1) = times ! Suc k"
        using True by (simp add: j_def rev_nth)
      ultimately show ?thesis using e exact True by (simp add: axpy_minus)
    next
      case False
      then have "j = 0" using k by (simp add: j_def)
      moreover have "mult (self_Mt_stab self) zero_V i = 0" for i
        by (simp add: mult_zero_V) (simp add: zero_V_def)
      ultimately show ?thesis using e exact False by (simp add: axpy_minus)
    qed
  qed
  from run s1 r(2) steps show ?thesis unfolding times_def by blast
qed

lemma example_Lt:
  "example_L = implicit_operator (self_M example_model) (self_dt example_model)
     (assemble (\<lambda>utrial utest. varf example_dl utest (x_PARAMETER example_x) utrial))
     (self_stab example_model)"
  by (simp add: example_L_def implicit_operator_def assemble_def example_model_def
      example_dl_def example_x_def fun_eq_iff)

theorem solveAdj_marches_backward_witness:
  "\<exists>gs self' out'.
     grad (self_misfit example_model) STATE example_x
       (TimeDependentVector (self_simulation_times example_model)) = Inr gs \<and>
     solveAdj example_dl example_model example_out example_x = Inr (self', out') \<and>
     self_Lt self' = Some example_L \<and> grid out' = grid example_out \<and>
     mult example_L (entry out' 2) = (\<lambda>i. 0 - entry gs 2 i) \<and>
     mult example_L (entry out' 1) =
       (\<lambda>i. mult (self_Mt_stab example_model) (entry out' 2) i - entry gs 1 i) \<and>
     mult example_L (entry out' 0) =
       (\<lambda>i. mult (self_Mt_stab example_model) (entry out' 1) i - entry gs 0 i)"
proof -
  have nv: "noise_variance example_misfit = Some 2" "(2::real) \<noteq> 0"
    by (simp_all add: example_misfit_def)
  have "\<exists>gs. grad_loop example_misfit (x_STATE example_x) (observation_times example_misfit)
          (zero_T (TimeDependentVector [0, 1, 2])) = Inr gs"
    using grad_loop_entries[OF nv, of "observation_times example_misfit" "x_STATE example_x"
        "zero_T (TimeDependentVector [0, 1, 2])"]
    by (auto simp add: example_misfit_def example_x_def grid_def zero_T_def TimeDependentVector_def)
  then obtain gs where gs: "grad (self_misfit example_model) STATE example_x
       (TimeDependentVector (self_simulation_times example_model)) = Inr gs"
    by (auto simp add: grad_def example_model_def)
  have d: "distinct (self_simulation_times example_model)"
    by (simp add: example_model_def)
  have g: "set (self_simulation_times example_model) \<subseteq> set (grid example_out)"
    by (simp add: example_model_def example_out_def grid_def TimeDependentVector_def)
  from solveAdj_marches_backward[OF example_Lt gs example_solver_exact d g]
  obtain self' out' where s:
    "solveAdj example_dl example_model example_out example_x = Inr (self', out')"
    "self_Lt self' = Some example_L" "grid out' = grid example_out"
    "\<forall>k<length (self_simulation_times example_model).
        mult example_L (entry out' (self_simulation_times example_model ! k)) =
        (\<lambda>i. (if Suc k < length (self_simulation_times example_model)
               then mult (self_Mt_stab example_model)
                      (entry out' (self_simulation_times example_model ! Suc k)) i
               else 0)
             - entry gs (self_simulation_times example_model ! k) i)"
    by blast
  have ts: "self_simulation_times example_model = [0, 1, 2]"
    by (simp add: example_model_def)
  from s(4)[rule_format, of "Suc (Suc 0)"] have k2: "mult example_L (entry out' ([0, 1, 2] ! Suc (Suc 0))) =
      (\<lambda>i. 0 - entry gs ([0, 1, 2] ! Suc (Suc 0)) i)"
    unfolding ts by simp
  from s(4)[rule_format, of "Suc 0"] have k1: "mult example_L (entry out' ([0, 1, 2] ! Suc 0)) =
      (\<lambda>i. mult (self_Mt_stab example_model) (entry out' ([0, 1, 2] ! Suc (Suc 0))) i
           - entry gs ([0, 1, 2] ! Suc 0) i)"
    unfolding ts by simp
  from s(4)[rule_format, of 0] have k0: "mult example_L (entry out' ([0, 1, 2] ! 0)) =
      (\<lambda>i. mult (self_Mt_stab example_model) (entry out' ([0, 1, 2] ! Suc 0)) i
           - entry gs ([0, 1, 2] ! 0) i)"
    unfolding ts by simp
  from gs s(1,2,3) k0 k1 k2 show ?thesis by simp
qed

section \<open>The forward solve\<close>

lemma solveFwd_loop_steps:
  assumes "self_solver self = Some A"
  shows "distinct ts \<Longrightarrow> h out = TDV c \<Longrightarrow> set ts \<subseteq> set (grid c) \<Longrightarrow>
   \<exists>c'. solveFwd_loop dl self out ts uold h = Inr (h(out := TDV c')) \<and> grid c' = grid c \<and>
     (\<forall>s. s \<notin> set ts \<longrightarrow> entry c' s = entry c s) \<and>
     (\<forall>k<length ts. entry c' (ts ! k) =
        PETScLUSolver dl A
          (mult (self_M_stab self) (if k = 0 then uold else entry c' (ts ! (k - 1)))))"
proof (induction ts arbitrary: uold h c)
  case Nil
  then show ?case by (auto intro!: exI[of _ c])
next
  case (Cons t ts)
  define u where "u = PETScLUSolver dl A (mult (self_M_stab self) uold)"
  have "t \<in> set (grid c)" using Cons.prems by simp
  then obtain c1 where c1: "store c u t = Inr c1"
    using store_total by blast
  have g1: "grid c1 = grid c" using c1 by (rule store_grid)
  define h1 where "h1 = h(out := TDV c1)"
  have h1out: "h1 out = TDV c1" by (simp add: h1_def)
  have d: "distinct ts" and sub: "set ts \<subseteq> set (grid c1)"
    using Cons.prems g1 by simp_all
  from Cons.IH[of h1 c1 u, OF d h1out sub] obtain c' where
    r: "solveFwd_loop dl self out ts u h1 = Inr (h1(out := TDV c'))" "grid c' = grid c1"
    "\<forall>s. s \<notin> set ts \<longrightarrow> entry c' s = entry c1 s"
    "\<forall>k<length ts. entry c' (ts ! k) =
        PETScLUSolver dl A
          (mult (self_M_stab self) (if k = 0 then u else entry c' (ts ! (k - 1))))"
    by blast
  have run: "solveFwd_loop dl self out (t # ts) uold h = Inr (h(out := TDV c'))"
    using Cons.prems(2) assms c1 r(1) by (simp add: u_def h1_def)
  have t_notin: "t \<notin> set ts" using Cons.prems by simp
  have et: "entry c' t = u"
    using r(3) t_notin entry_store[OF c1] by simp
  have frame: "\<forall>s. s \<notin> set (t # ts) \<longrightarrow> entry c' s = entry c s"
    using r(3) entry_store[OF c1] by simp
  have steps: "\<forall>k<length (t # ts). entry c' ((t # ts) ! k) =
        PETScLUSolver dl A
          (mult (self_M_stab self) (if k = 0 then uold else entry c' ((t # ts) ! (k - 1))))"
  proof (intro allI impI)
    fix k assume k: "k < length (t # ts)"
    show "entry c' ((t # ts) ! k) =
        PETScLUSolver dl A
          (mult (self_M_stab self) (if k = 0 then uold else entry c' ((t # ts) ! (k - 1))))"
    proof (cases k)
      case 0
      then show ?thesis using et by (simp add: u_def)
    next
      case (Suc j)
      then have j: "j < length ts" using k by simp
      show ?thesis
      proof (cases j)
        case 0
        then show ?thesis using Suc r(4) j et by simp
      next
        case (Suc i)
        then show ?thesis using \<open>k = Suc j\<close> r(4) j by simp
      qed
    qed
  qed
  have "grid c' = grid c" using g1 r(2) by simp
  with run frame steps show ?case by blast
qed

lemma store_first:
  "grid c = t # ts \<Longrightarrow> \<exists>rest. store c u t = Inr ((t, u) # rest) \<and> c = (t, entry c t) # rest"
  by (cases c) (auto simp: grid_def entry_def)

lemma define_Fwd_solver_fields:
  "self_solver (define_Fwd_solver dl self m) =
     Some (implicit_operator (self_M self) (self_dt self)
       (assemble (\<lambda>utrial utest. varf dl utrial m utest)) (self_stab self))"
  "self_L (define_Fwd_solver dl self m) =
     Some (implicit_operator (self_M self) (self_dt self)
       (assemble (\<lambda>utrial utest. varf dl utrial m utest)) (self_stab self))"
  "self_N (define_Fwd_solver dl self m) = Some (assemble (\<lambda>utrial utest. varf dl utrial m utest))"
  "self_simulation_times (define_Fwd_solver dl self m) = self_simulation_times self"
  "self_M_stab (define_Fwd_solver dl self m) = self_M_stab self"
  by (simp_all add: define_Fwd_solver_def Let_def)

lemma solveFwd_result:
  assumes hout: "h out = TDV c_out" and hs: "h (ref_STATE x) = TDV c_s"
    and hm: "h (ref_PARAMETER x) = VEC m"
    and L: "L = implicit_operator (self_M self) (self_dt self)
                 (assemble (\<lambda>utrial utest. varf dl utrial m utest)) (self_stab self)"
    and times: "self_simulation_times self = 0 # ts" and dist: "distinct (0 # ts)"
    and gs: "grid c_s = 0 # ts" and go: "grid c_out = 0 # ts"
  shows "\<exists>h' s' o'. solveFwd dl self out x h = Inr (define_Fwd_solver dl self m, h') \<and>
      h' (ref_STATE x) = TDV s' \<and> h' out = TDV o' \<and>
      (\<forall>r. r \<noteq> out \<and> r \<noteq> ref_STATE x \<longrightarrow> h' r = h r) \<and>
      grid s' = 0 # ts \<and> grid o' = 0 # ts \<and>
      entry s' 0 = self_ic self \<and>
      entry o' 0 = (if out = ref_STATE x then self_ic self else zero_V) \<and>
      (out \<noteq> ref_STATE x \<longrightarrow> (\<forall>t. t \<noteq> 0 \<longrightarrow> entry s' t = entry c_s t)) \<and>
      (\<forall>k<length ts. entry o' (ts ! k) =
         PETScLUSolver dl L
           (mult (self_M_stab self) (if k = 0 then self_ic self else entry o' (ts ! (k - 1)))))"
proof -
  define self1 where "self1 = define_Fwd_solver dl self m"
  have s1: "self_solver self1 = Some L" "self_simulation_times self1 = 0 # ts"
    "self_M_stab self1 = self_M_stab self"
    by (simp_all add: self1_def define_Fwd_solver_fields L times)
  define h0 where "h0 = h(out := TDV (zero_T c_out))"
  define cs0 where "cs0 = (if out = ref_STATE x then zero_T c_out else c_s)"
  have h0s: "h0 (ref_STATE x) = TDV cs0"
    using hs by (simp add: h0_def cs0_def)
  have gcs0: "grid cs0 = 0 # ts"
    using gs go by (simp add: cs0_def grid_zero_T)
  from store_first[OF gcs0] obtain rest where
    st: "store cs0 (self_ic self) 0 = Inr ((0, self_ic self) # rest)"
    by blast
  define cs1 where "cs1 = (0, self_ic self) # rest"
  have gcs1: "grid cs1 = 0 # ts"
    using store_grid[OF st] gcs0 by (simp add: cs1_def)
  have ecs1: "entry cs1 t = (if t = 0 then self_ic self else entry cs0 t)" for t
    using entry_store[OF st] by (simp add: cs1_def)
  define h1 where "h1 = h0(ref_STATE x := TDV cs1)"
  have pne: "ref_PARAMETER x \<noteq> out" "ref_PARAMETER x \<noteq> ref_STATE x"
    using hout hs hm by auto
  have h1m: "h1 (ref_PARAMETER x) = VEC m"
    using pne hm by (simp add: h1_def h0_def)
  define co1 where "co1 = (if out = ref_STATE x then cs1 else zero_T c_out)"
  have h1o: "h1 out = TDV co1"
    by (simp add: h1_def h0_def co1_def)
  have gco1: "grid co1 = 0 # ts"
    using gcs1 go by (simp add: co1_def grid_zero_T)
  have d: "distinct ts" and sub: "set ts \<subseteq> set (grid co1)"
    using dist gco1 by auto
  from solveFwd_loop_steps[OF s1(1), of ts h1 out co1 dl "self_ic self", OF d h1o sub]
  obtain c' where
    r: "solveFwd_loop dl self1 out ts (self_ic self) h1 = Inr (h1(out := TDV c'))"
    "grid c' = grid co1"
    "\<forall>s. s \<notin> set ts \<longrightarrow> entry c' s = entry co1 s"
    "\<forall>k<length ts. entry c' (ts ! k) =
        PETScLUSolver dl L
          (mult (self_M_stab self) (if k = 0 then self_ic self else entry c' (ts ! (k - 1))))"
    unfolding s1(3) by blast
  define h' where "h' = h1(out := TDV c')"
  have z0: "h(out := zero_obj (h out)) = h0"
    using hout by (simp add: h0_def zero_obj_def)
  have a: "(h(out := zero_obj (h out))) (ref_STATE x) = TDV cs0"
    unfolding z0 by (rule h0s)
  have b: "((h(out := zero_obj (h out)))(ref_STATE x := TDV ((0, self_ic self) # rest)))
             (ref_PARAMETER x) = VEC m"
    unfolding z0 using h1m by (simp add: h1_def cs1_def)
  have c: "solveFwd_loop dl (define_Fwd_solver dl self m) out ts (self_ic self)
             ((h(out := zero_obj (h out)))(ref_STATE x := TDV ((0, self_ic self) # rest)))
           = Inr h'"
    unfolding z0 using r(1) by (simp add: h1_def cs1_def self1_def h'_def)
  have run: "solveFwd dl self out x h = Inr (define_Fwd_solver dl self m, h')"
    by (simp add: solveFwd_def Let_def a st b c define_Fwd_solver_fields times
        del: fun_upd_apply)
  define s' where "s' = (if out = ref_STATE x then c' else cs1)"
  have hs': "h' (ref_STATE x) = TDV s'"
    by (simp add: h'_def h1_def s'_def)
  have ho': "h' out = TDV c'" by (simp add: h'_def)
  have fr: "\<forall>r. r \<noteq> out \<and> r \<noteq> ref_STATE x \<longrightarrow> h' r = h r"
    by (simp add: h'_def h1_def h0_def)
  have z: "0 \<notin> set ts" using dist by simp
  have ec0: "entry c' 0 = (if out = ref_STATE x then self_ic self else zero_V)"
    using r(3) z by (simp add: co1_def ecs1 entry_zero_T)
  have es0: "entry s' 0 = self_ic self"
    using ec0 by (simp add: s'_def ecs1)
  have gs': "grid s' = 0 # ts"
    using r(2) gco1 gcs1 by (simp add: s'_def)
  have gc': "grid c' = 0 # ts" using r(2) gco1 by simp
  have keep: "out \<noteq> ref_STATE x \<longrightarrow> (\<forall>t. t \<noteq> 0 \<longrightarrow> entry s' t = entry c_s t)"
    by (simp add: s'_def ecs1 cs0_def)
  from run hs' ho' fr gs' gc' es0 ec0 keep r(4) show ?thesis by blast
qed

lemma example_L_forward:
  "example_L = implicit_operator (self_M example_model) (self_dt example_model)
     (assemble (\<lambda>utrial utest. varf example_dl utrial (\<lambda>q. 1) utest))
     (self_stab example_model)"
  by (simp add: example_L_def implicit_operator_def assemble_def example_model_def
      example_dl_def fun_eq_iff)

lemma example_heap_refs:
  "example_heap 0 = TDV (x_STATE example_x)"
  "example_heap (ref_STATE example_xrefs) = TDV (x_STATE example_x)"
  "example_heap (ref_PARAMETER example_xrefs) = VEC (\<lambda>q. 1)"
  "example_heap 3 = TDV example_out"
  by (simp_all add: example_heap_def example_xrefs_def)

lemma example_grids:
  "self_simulation_times example_model = 0 # [1, 2]" "distinct (0 # [1, 2 :: real])"
  "grid (x_STATE example_x) = 0 # [1, 2]" "grid example_out = 0 # [1, 2]"
  by (simp_all add: example_model_def example_x_def example_out_def grid_def
      TimeDependentVector_def)

lemma example_ic_nonzero: "self_ic example_model \<noteq> zero_V"
proof
  assume "self_ic example_model = zero_V"
  then have "self_ic example_model True = zero_V True" by simp
  then show False by (simp add: example_model_def zero_V_def)
qed

text \<open>
  Claim C3.  Let \<open>out\<close> and \<open>x[STATE]\<close> refer to time-dependent vectors on the simulation
  grid, which starts at time \<open>0\<close> and has distinct times, let \<open>x[PARAMETER]\<close> refer to the
  parameter vector \<open>m\<close>, let \<open>L = M + dt N + stab\<close> with \<open>N\<close> the transport matrix assembled
  at \<open>m\<close>, and let the solver be exact.  Then \<open>solveFwd\<close> succeeds and leaves \<open>N\<close>, \<open>L\<close> and
  the solver with operator \<open>L\<close> in the model; the initial condition is stored in \<open>x[STATE]\<close>
  at time \<open>0\<close>; and the state stored in \<open>out\<close> at each later time solves
  \<open>L u(t) = M_stab u(t')\<close>, where \<open>u(t')\<close> is the state stored at the preceding time and, at
  the first step, the initial condition at time \<open>0\<close>.  When \<open>out\<close> is \<open>x[STATE]\<close> itself, as in
  the driver, all of this is one container: the full state history.
\<close>

theorem solveFwd_marches_forward:
  assumes hout: "h out = TDV c_out" and hs: "h (ref_STATE x) = TDV c_s"
    and hm: "h (ref_PARAMETER x) = VEC m"
    and L: "L = implicit_operator (self_M self) (self_dt self)
                 (assemble (\<lambda>utrial utest. varf dl utrial m utest)) (self_stab self)"
    and exact: "\<forall>b. mult L (PETScLUSolver dl L b) = b"
    and times: "self_simulation_times self = 0 # ts" and dist: "distinct (0 # ts)"
    and gs: "grid c_s = 0 # ts" and go: "grid c_out = 0 # ts"
  shows "\<exists>self' h' s' o'. solveFwd dl self out x h = Inr (self', h') \<and>
      self_N self' = Some (assemble (\<lambda>utrial utest. varf dl utrial m utest)) \<and>
      self_L self' = Some L \<and> self_solver self' = Some L \<and>
      h' (ref_STATE x) = TDV s' \<and> h' out = TDV o' \<and>
      grid s' = 0 # ts \<and> grid o' = 0 # ts \<and>
      entry s' 0 = self_ic self \<and>
      (\<forall>k<length ts. mult L (entry o' (ts ! k)) =
         mult (self_M_stab self) (if k = 0 then entry s' 0 else entry o' (ts ! (k - 1)))) \<and>
      (out = ref_STATE x \<longrightarrow>
         (\<forall>k<length ts. mult L (entry s' (ts ! k)) =
            mult (self_M_stab self) (entry s' ((0 # ts) ! k))))"
proof -
  from solveFwd_result[OF hout hs hm L times dist gs go]
  obtain h' s' o' where r:
    "solveFwd dl self out x h = Inr (define_Fwd_solver dl self m, h')"
    "h' (ref_STATE x) = TDV s'" "h' out = TDV o'"
    "grid s' = 0 # ts" "grid o' = 0 # ts"
    "entry s' 0 = self_ic self"
    "\<forall>k<length ts. entry o' (ts ! k) =
         PETScLUSolver dl L
           (mult (self_M_stab self) (if k = 0 then self_ic self else entry o' (ts ! (k - 1))))"
    by blast
  have st: "\<forall>k<length ts. mult L (entry o' (ts ! k)) =
         mult (self_M_stab self) (if k = 0 then entry s' 0 else entry o' (ts ! (k - 1)))"
    using r(7) exact r(6) by simp
  have al: "out = ref_STATE x \<longrightarrow>
         (\<forall>k<length ts. mult L (entry s' (ts ! k)) =
            mult (self_M_stab self) (entry s' ((0 # ts) ! k)))"
  proof (intro impI allI)
    fix k assume a: "out = ref_STATE x" and k: "k < length ts"
    have eq: "s' = o'" using a r(2,3) by simp
    have "(if k = 0 then entry s' 0 else entry o' (ts ! (k - 1))) = entry s' ((0 # ts) ! k)"
      using eq by (cases k) simp_all
    then show "mult L (entry s' (ts ! k)) = mult (self_M_stab self) (entry s' ((0 # ts) ! k))"
      using st k eq by simp
  qed
  from r(1,2,3,4,5,6) st al show ?thesis
    by (simp add: define_Fwd_solver_fields L)
qed

theorem solveFwd_marches_forward_witness:
  "\<exists>self' h' s'. solveFwd example_dl example_model 0 example_xrefs example_heap = Inr (self', h') \<and>
     self_L self' = Some example_L \<and> h' 0 = TDV s' \<and> entry s' 0 = self_ic example_model \<and>
     mult example_L (entry s' 1) = mult (self_M_stab example_model) (entry s' 0) \<and>
     mult example_L (entry s' 2) = mult (self_M_stab example_model) (entry s' 1)"
proof -
  from solveFwd_marches_forward[OF example_heap_refs(1) example_heap_refs(2)
      example_heap_refs(3) example_L_forward example_solver_exact example_grids(1)
      example_grids(2) example_grids(3) example_grids(3)]
  obtain self' h' s' o' where r:
    "solveFwd example_dl example_model 0 example_xrefs example_heap = Inr (self', h')"
    "self_L self' = Some example_L"
    "h' (ref_STATE example_xrefs) = TDV s'"
    "entry s' 0 = self_ic example_model"
    "0 = ref_STATE example_xrefs \<longrightarrow>
         (\<forall>k<length [1, 2 :: real]. mult example_L (entry s' ([1, 2] ! k)) =
            mult (self_M_stab example_model) (entry s' ((0 # [1, 2]) ! k)))"
    by blast
  have al: "0 = ref_STATE example_xrefs" by (simp add: example_xrefs_def)
  from r(5)[rule_format, OF al, of 0]
  have k0: "mult example_L (entry s' 1) = mult (self_M_stab example_model) (entry s' 0)"
    by simp
  from r(5)[rule_format, OF al, of "Suc 0"]
  have k1: "mult example_L (entry s' 2) = mult (self_M_stab example_model) (entry s' 1)"
    by simp
  from r(1,2,3,4) k0 k1 al show ?thesis by auto
qed

text \<open>
  Claim C10, as stated, fails when \<open>out\<close> is \<open>x[STATE]\<close> itself, which is how the driver
  calls \<open>solveFwd\<close>: the entry of \<open>out\<close> at time \<open>0\<close> is then the initial condition and not
  zero.
\<close>

theorem solveFwd_aliased_counterexample:
  "\<exists>self' h' o'. solveFwd example_dl example_model 0 example_xrefs example_heap = Inr (self', h') \<and>
     h' 0 = TDV o' \<and> entry o' 0 = self_ic example_model \<and> entry o' 0 \<noteq> zero_V"
proof -
  have a: "example_heap 0 = TDV (x_STATE example_x)"
    "example_heap (ref_STATE example_xrefs) = TDV (x_STATE example_x)"
    "example_heap (ref_PARAMETER example_xrefs) = VEC (\<lambda>q. 1)"
    by (simp_all add: example_heap_def example_xrefs_def)
  have t: "self_simulation_times example_model = 0 # [1, 2]" "distinct (0 # [1, 2 :: real])"
    by (simp_all add: example_model_def)
  have g: "grid (x_STATE example_x) = 0 # [1, 2]"
    by (simp add: example_x_def grid_def)
  from solveFwd_result[OF a(1) a(2) a(3) refl t g g, of example_dl]
  obtain h' s' o' where r:
    "solveFwd example_dl example_model 0 example_xrefs example_heap
       = Inr (define_Fwd_solver example_dl example_model (\<lambda>q. 1), h')"
    "h' (ref_STATE example_xrefs) = TDV s'"
    "h' 0 = TDV o'"
    "entry o' 0 = (if 0 = ref_STATE example_xrefs then self_ic example_model else zero_V)"
    by blast
  have "entry o' 0 = self_ic example_model"
    using r(4) by (simp add: example_xrefs_def)
  with r(1,3) example_ic_nonzero show ?thesis by auto
qed

text \<open>
  Claim C10, amended.  \<open>solveFwd\<close> stores the initial condition in \<open>x[STATE]\<close> at time \<open>0\<close>.
  When \<open>out\<close> is another object than \<open>x[STATE]\<close>, the entry of \<open>out\<close> at time \<open>0\<close> is the
  zero it was reset to and the other entries of \<open>x[STATE]\<close> are as before; when \<open>out\<close> is
  \<open>x[STATE]\<close>, its entry at time \<open>0\<close> is the initial condition.  The parameter is unchanged,
  and so is every object that is neither \<open>out\<close> nor \<open>x[STATE]\<close>, the adjoint among them.
\<close>

theorem solveFwd_frame:
  assumes hout: "h out = TDV c_out" and hs: "h (ref_STATE x) = TDV c_s"
    and hm: "h (ref_PARAMETER x) = VEC m"
    and times: "self_simulation_times self = 0 # ts" and dist: "distinct (0 # ts)"
    and gs: "grid c_s = 0 # ts" and go: "grid c_out = 0 # ts"
  shows "\<exists>self' h' s' o'. solveFwd dl self out x h = Inr (self', h') \<and>
      h' (ref_STATE x) = TDV s' \<and> h' out = TDV o' \<and>
      entry s' 0 = self_ic self \<and>
      (out \<noteq> ref_STATE x \<longrightarrow>
         entry o' 0 = zero_V \<and> (\<forall>t. t \<noteq> 0 \<longrightarrow> entry s' t = entry c_s t)) \<and>
      (out = ref_STATE x \<longrightarrow> entry o' 0 = self_ic self) \<and>
      h' (ref_PARAMETER x) = h (ref_PARAMETER x) \<and>
      (\<forall>a. ref_ADJOINT x = Some a \<and> a \<noteq> out \<and> a \<noteq> ref_STATE x \<longrightarrow> h' a = h a) \<and>
      (\<forall>r. r \<noteq> out \<and> r \<noteq> ref_STATE x \<longrightarrow> h' r = h r)"
proof -
  from solveFwd_result[OF hout hs hm refl times dist gs go]
  obtain h' s' o' where r:
    "solveFwd dl self out x h = Inr (define_Fwd_solver dl self m, h')"
    "h' (ref_STATE x) = TDV s'" "h' out = TDV o'"
    "\<forall>r. r \<noteq> out \<and> r \<noteq> ref_STATE x \<longrightarrow> h' r = h r"
    "entry s' 0 = self_ic self"
    "entry o' 0 = (if out = ref_STATE x then self_ic self else zero_V)"
    "out \<noteq> ref_STATE x \<longrightarrow> (\<forall>t. t \<noteq> 0 \<longrightarrow> entry s' t = entry c_s t)"
    by blast
  have pne: "ref_PARAMETER x \<noteq> out" "ref_PARAMETER x \<noteq> ref_STATE x"
    using hout hs hm by auto
  then have "h' (ref_PARAMETER x) = h (ref_PARAMETER x)" using r(4) by simp
  with r show ?thesis by auto
qed

theorem solveFwd_frame_witness:
  "(\<exists>self' h' s' o'.
      solveFwd example_dl example_model 3 example_xrefs example_heap = Inr (self', h') \<and>
      h' 0 = TDV s' \<and> h' 3 = TDV o' \<and> entry s' 0 = self_ic example_model \<and>
      entry o' 0 = zero_V \<and> entry s' 1 = entry (x_STATE example_x) 1 \<and>
      h' 1 = example_heap 1 \<and> h' 2 = example_heap 2) \<and>
   (\<exists>self' h' o'.
      solveFwd example_dl example_model 0 example_xrefs example_heap = Inr (self', h') \<and>
      h' 0 = TDV o' \<and> entry o' 0 = self_ic example_model)"
proof -
  have rs: "ref_STATE example_xrefs = 0" "ref_PARAMETER example_xrefs = 1"
    "ref_ADJOINT example_xrefs = Some 2"
    by (simp_all add: example_xrefs_def)
  from solveFwd_frame[OF example_heap_refs(4) example_heap_refs(2) example_heap_refs(3)
      example_grids(1) example_grids(2) example_grids(3) example_grids(4), of example_dl]
  obtain self' h' s' o' where r:
    "solveFwd example_dl example_model 3 example_xrefs example_heap = Inr (self', h')"
    "h' (ref_STATE example_xrefs) = TDV s'" "h' 3 = TDV o'"
    "entry s' 0 = self_ic example_model"
    "3 \<noteq> ref_STATE example_xrefs \<longrightarrow>
         entry o' 0 = zero_V \<and> (\<forall>t. t \<noteq> 0 \<longrightarrow> entry s' t = entry (x_STATE example_x) t)"
    "h' (ref_PARAMETER example_xrefs) = example_heap (ref_PARAMETER example_xrefs)"
    "\<forall>a. ref_ADJOINT example_xrefs = Some a \<and> a \<noteq> 3 \<and> a \<noteq> ref_STATE example_xrefs
        \<longrightarrow> h' a = example_heap a"
    by blast
  have first: "\<exists>self' h' s' o'.
      solveFwd example_dl example_model 3 example_xrefs example_heap = Inr (self', h') \<and>
      h' 0 = TDV s' \<and> h' 3 = TDV o' \<and> entry s' 0 = self_ic example_model \<and>
      entry o' 0 = zero_V \<and> entry s' 1 = entry (x_STATE example_x) 1 \<and>
      h' 1 = example_heap 1 \<and> h' 2 = example_heap 2"
    using r by (auto simp: rs)
  from solveFwd_frame[OF example_heap_refs(1) example_heap_refs(2) example_heap_refs(3)
      example_grids(1) example_grids(2) example_grids(3) example_grids(3), of example_dl]
  obtain self2 h2 s2 o2 where q:
    "solveFwd example_dl example_model 0 example_xrefs example_heap = Inr (self2, h2)"
    "h2 (ref_STATE example_xrefs) = TDV s2"
    "h2 0 = TDV o2"
    "0 = ref_STATE example_xrefs \<longrightarrow> entry o2 0 = self_ic example_model"
    by blast
  have second: "\<exists>self' h' o'.
      solveFwd example_dl example_model 0 example_xrefs example_heap = Inr (self', h') \<and>
      h' 0 = TDV o' \<and> entry o' 0 = self_ic example_model"
    using q by (auto simp: rs)
  from first second show ?thesis by blast
qed

section \<open>The block dispatcher\<close>

lemma apply_ij_state_parameter_loop_entries:
  assumes "x_ADJOINT x = Some p"
  shows "set ts \<subseteq> set (grid (x_STATE x)) \<Longrightarrow> set ts \<subseteq> set (grid p) \<Longrightarrow>
   set ts \<subseteq> set (grid c) \<Longrightarrow>
   \<exists>c'. apply_ij_state_parameter_loop dl self x (VEC dir) ts (TDV c) = Inr (TDV c') \<and>
     grid c' = grid c \<and>
     (\<forall>t. entry c' t = (if t \<in> set ts
        then scale (self_dt self)
               (d_m_u dl (entry (x_STATE x) t) (x_PARAMETER x) (entry p t) dir)
        else entry c t))"
proof (induction ts arbitrary: c)
  case Nil
  then show ?case by simp
next
  case (Cons a ts)
  define w where "w = scale (self_dt self)
               (d_m_u dl (entry (x_STATE x) a) (x_PARAMETER x) (entry p a) dir)"
  have "a \<in> set (grid c)" using Cons.prems by simp
  then obtain c1 where c1: "store c w a = Inr c1"
    using store_total by blast
  have g1: "grid c1 = grid c" using c1 by (rule store_grid)
  from Cons.IH[of c1] Cons.prems g1 obtain c' where
    r: "apply_ij_state_parameter_loop dl self x (VEC dir) ts (TDV c1) = Inr (TDV c')"
    "grid c' = grid c"
    "\<forall>t. entry c' t = (if t \<in> set ts
        then scale (self_dt self)
               (d_m_u dl (entry (x_STATE x) t) (x_PARAMETER x) (entry p t) dir)
        else entry c1 t)"
    by auto
  have "apply_ij_state_parameter_loop dl self x (VEC dir) (a # ts) (TDV c) = Inr (TDV c')"
    using Cons.prems assms c1 r(1)
    by (simp add: retrieve_total vector2Function_def store_obj_def w_def)
  moreover have "\<forall>t. entry c' t = (if t \<in> set (a # ts)
        then scale (self_dt self)
               (d_m_u dl (entry (x_STATE x) t) (x_PARAMETER x) (entry p t) dir)
        else entry c t)"
    using r(3) entry_store[OF c1] by (auto simp: w_def)
  ultimately show ?case using r(2) by blast
qed

lemma apply_ij_adjoint_parameter_loop_entries:
  assumes "x_ADJOINT x = Some p"
  shows "set ts \<subseteq> set (grid (x_STATE x)) \<Longrightarrow> set ts \<subseteq> set (grid p) \<Longrightarrow>
   set ts \<subseteq> set (grid c) \<Longrightarrow>
   \<exists>c'. apply_ij_adjoint_parameter_loop dl self x (VEC dir) ts (TDV c) = Inr (TDV c') \<and>
     grid c' = grid c \<and>
     (\<forall>t. entry c' t = (if t \<in> set ts
        then scale (self_dt self)
               (d_m_p dl (entry (x_STATE x) t) (x_PARAMETER x) (entry p t) dir)
        else entry c t))"
proof (induction ts arbitrary: c)
  case Nil
  then show ?case by simp
next
  case (Cons a ts)
  define w where "w = scale (self_dt self)
               (d_m_p dl (entry (x_STATE x) a) (x_PARAMETER x) (entry p a) dir)"
  have "a \<in> set (grid c)" using Cons.prems by simp
  then obtain c1 where c1: "store c w a = Inr c1"
    using store_total by blast
  have g1: "grid c1 = grid c" using c1 by (rule store_grid)
  from Cons.IH[of c1] Cons.prems g1 obtain c' where
    r: "apply_ij_adjoint_parameter_loop dl self x (VEC dir) ts (TDV c1) = Inr (TDV c')"
    "grid c' = grid c"
    "\<forall>t. entry c' t = (if t \<in> set ts
        then scale (self_dt self)
               (d_m_p dl (entry (x_STATE x) t) (x_PARAMETER x) (entry p t) dir)
        else entry c1 t)"
    by auto
  have "apply_ij_adjoint_parameter_loop dl self x (VEC dir) (a # ts) (TDV c) = Inr (TDV c')"
    using Cons.prems assms c1 r(1)
    by (simp add: retrieve_total vector2Function_def store_obj_def w_def)
  moreover have "\<forall>t. entry c' t = (if t \<in> set (a # ts)
        then scale (self_dt self)
               (d_m_p dl (entry (x_STATE x) t) (x_PARAMETER x) (entry p t) dir)
        else entry c t)"
    using r(3) entry_store[OF c1] by (auto simp: w_def)
  ultimately show ?case using r(2) by blast
qed

lemma apply_ij_parameter_parameter_loop_sum:
  assumes "x_ADJOINT x = Some p"
  shows "set ts \<subseteq> set (grid (x_STATE x)) \<Longrightarrow> set ts \<subseteq> set (grid p) \<Longrightarrow>
   apply_ij_parameter_parameter_loop dl self x (VEC dir) ts (VEC v) =
     Inr (VEC (\<lambda>i. v i + sum_V (\<lambda>t. d_m_m dl (entry (x_STATE x) t) (x_PARAMETER x)
                                      (entry p t) dir) ts i))"
proof (induction ts arbitrary: v)
  case Nil
  then show ?case by (simp add: sum_V_def)
next
  case (Cons a ts)
  then show ?case
    using assms
    by (simp add: retrieve_total vector2Function_def iadd_obj_def axpy_def sum_V_def add.assoc)
qed

lemma apply_ij_parameter_adjoint_loop_sum:
  assumes "x_ADJOINT x = Some p"
  shows "set ts \<subseteq> set (grid (x_STATE x)) \<Longrightarrow> set ts \<subseteq> set (grid p) \<Longrightarrow>
   set ts \<subseteq> set (grid dc) \<Longrightarrow>
   apply_ij_parameter_adjoint_loop dl self x (TDV dc) ts (VEC v) =
     Inr (VEC (\<lambda>i. v i + sum_V (\<lambda>t. d_p_m dl (entry (x_STATE x) t) (x_PARAMETER x)
                                      (entry p t) (entry dc t)) ts i))"
proof (induction ts arbitrary: v)
  case Nil
  then show ?case by (simp add: sum_V_def)
next
  case (Cons a ts)
  then show ?case
    using assms
    by (simp add: retrieve_total retrieve_obj_def iadd_obj_def axpy_def sum_V_def add.assoc)
qed

lemma apply_ij_parameter_state_loop_sum:
  assumes "x_ADJOINT x = Some p"
  shows "set ts \<subseteq> set (grid (x_STATE x)) \<Longrightarrow> set ts \<subseteq> set (grid p) \<Longrightarrow>
   set ts \<subseteq> set (grid dc) \<Longrightarrow>
   apply_ij_parameter_state_loop dl self x (TDV dc) ts (VEC v) =
     Inr (VEC (\<lambda>i. v i + sum_V (\<lambda>t. d_u_m dl (entry (x_STATE x) t) (x_PARAMETER x)
                                      (entry p t) (entry dc t)) ts i))"
proof (induction ts arbitrary: v)
  case Nil
  then show ?case by (simp add: sum_V_def)
next
  case (Cons a ts)
  then show ?case
    using assms
    by (simp add: retrieve_total retrieve_obj_def iadd_obj_def axpy_def sum_V_def add.assoc)
qed

lemma tags_distinct:
  "STATE \<noteq> PARAMETER" "STATE \<noteq> ADJOINT" "PARAMETER \<noteq> ADJOINT"
  "PARAMETER \<noteq> STATE" "ADJOINT \<noteq> STATE" "ADJOINT \<noteq> PARAMETER"
  by (simp_all add: STATE_def PARAMETER_def ADJOINT_def)

text \<open>
  Claim C1, as stated, fails: with a linearization point set, the pairs (state, adjoint),
  (adjoint, state) and (adjoint, adjoint) fall through the chain of branches, and the call
  returns with \<open>out\<close> zeroed.
\<close>

theorem apply_ij_unsupported_counterexample:
  "apply_ij example_dl example_model STATE ADJOINT (TDV example_rhs) (TDV example_out)
     = Inr (zero_obj (TDV example_out)) \<and>
   apply_ij example_dl example_model ADJOINT STATE (TDV example_rhs) (TDV example_out)
     = Inr (zero_obj (TDV example_out)) \<and>
   apply_ij example_dl example_model ADJOINT ADJOINT (TDV example_rhs) (TDV example_out)
     = Inr (zero_obj (TDV example_out))"
  by (simp add: apply_ij_def STATE_def PARAMETER_def ADJOINT_def example_model_def)

text \<open>
  Claim C1, amended.  For every linearization point that has been set and every
  direction, \<open>apply_ij\<close> with a pair outside the five computed blocks and the state-state
  block raises no error: it returns with \<open>out\<close> zeroed.
\<close>

theorem apply_ij_unsupported_returns:
  assumes "self_x self = Some x"
    and "(i, j) \<notin> {(STATE, STATE), (STATE, PARAMETER), (ADJOINT, PARAMETER),
                    (PARAMETER, PARAMETER), (PARAMETER, ADJOINT), (PARAMETER, STATE)}"
  shows "apply_ij dl self i j direction out = Inr (zero_obj out)"
proof -
  have n: "(i = STATE \<and> j = STATE) = False" "(i = STATE \<and> j = PARAMETER) = False"
    "(i = ADJOINT \<and> j = PARAMETER) = False" "(i = PARAMETER \<and> j = PARAMETER) = False"
    "(i = PARAMETER \<and> j = ADJOINT) = False" "(i = PARAMETER \<and> j = STATE) = False"
    using assms(2) by auto
  show ?thesis
    by (simp only: apply_ij_def Let_def n assms(1) if_False if_True not_False_eq_True
        option.case)
qed

theorem apply_ij_unsupported_returns_witness:
  "self_x example_model = Some example_x \<and>
   (STATE, ADJOINT) \<notin> {(STATE, STATE), (STATE, PARAMETER), (ADJOINT, PARAMETER),
                    (PARAMETER, PARAMETER), (PARAMETER, ADJOINT), (PARAMETER, STATE)} \<and>
   apply_ij example_dl example_model STATE ADJOINT (TDV example_rhs) (VEC (\<lambda>q. 5))
     = Inr (zero_obj (VEC (\<lambda>q. 5)))"
proof -
  have a: "self_x example_model = Some example_x" by (simp add: example_model_def)
  have b: "(STATE, ADJOINT) \<notin> {(STATE, STATE), (STATE, PARAMETER), (ADJOINT, PARAMETER),
                    (PARAMETER, PARAMETER), (PARAMETER, ADJOINT), (PARAMETER, STATE)}"
    by (simp add: tags_distinct)
  from apply_ij_unsupported_returns[OF a b] a b show ?thesis by simp
qed

text \<open>
  Claim C2, as stated, fails for the block (parameter, state), which it counts among the
  time-indexed results and among the single vectors: the code accumulates it into a single
  vector, and the call raises when \<open>out\<close> is a time-dependent vector.
\<close>

theorem apply_ij_parameter_state_counterexample:
  "(\<exists>w. apply_ij example_dl example_model PARAMETER STATE (TDV example_rhs) (VEC (\<lambda>q. 0))
        = Inr (VEC w)) \<and>
   apply_ij example_dl example_model PARAMETER STATE (TDV example_rhs) (TDV example_out)
     = Inl TypeError"
  by (simp add: apply_ij_def tags_distinct example_model_def example_x_def example_rhs_def
      retrieve_obj_def iadd_obj_def zero_obj_def imul_obj_def)

text \<open>
  Claim C2, amended.  At a linearization point with state and adjoint histories on the
  simulation times after the first (the grid has distinct times): the blocks
  (state, parameter) and (adjoint, parameter) are time-indexed, with the container's grid
  unchanged, the zero vector at the first simulation time, and at each later time the
  second derivative at the stored state and adjoint in the given direction, times \<open>dt\<close>;
  the blocks (parameter, parameter), (parameter, adjoint) and (parameter, state) are single
  vectors, the sum of the per-time derivatives over the simulation times after the
  first, times \<open>dt\<close>, every time with the same weight.
\<close>

theorem apply_ij_block_shapes:
  assumes lin: "self_x self = Some x" and adj: "x_ADJOINT x = Some p"
    and times: "self_simulation_times self = t0 # ts" and dist: "distinct (t0 # ts)"
    and su: "set ts \<subseteq> set (grid (x_STATE x))" and sp: "set ts \<subseteq> set (grid p)"
  shows
   "(set (t0 # ts) \<subseteq> set (grid c) \<longrightarrow>
      (\<exists>c'. apply_ij dl self STATE PARAMETER (VEC dir) (TDV c) = Inr (TDV c') \<and>
         grid c' = grid c \<and> entry c' t0 = zero_V \<and>
         (\<forall>t. entry c' t = (if t \<in> set ts
            then scale (self_dt self)
                   (d_m_u dl (entry (x_STATE x) t) (x_PARAMETER x) (entry p t) dir)
            else zero_V))) \<and>
      (\<exists>c'. apply_ij dl self ADJOINT PARAMETER (VEC dir) (TDV c) = Inr (TDV c') \<and>
         grid c' = grid c \<and> entry c' t0 = zero_V \<and>
         (\<forall>t. entry c' t = (if t \<in> set ts
            then scale (self_dt self)
                   (d_m_p dl (entry (x_STATE x) t) (x_PARAMETER x) (entry p t) dir)
            else zero_V)))) \<and>
    apply_ij dl self PARAMETER PARAMETER (VEC dir) (VEC v) =
      Inr (VEC (scale (self_dt self)
        (sum_V (\<lambda>t. d_m_m dl (entry (x_STATE x) t) (x_PARAMETER x) (entry p t) dir) ts))) \<and>
    (set ts \<subseteq> set (grid dc) \<longrightarrow>
      apply_ij dl self PARAMETER ADJOINT (TDV dc) (VEC v) =
        Inr (VEC (scale (self_dt self)
          (sum_V (\<lambda>t. d_p_m dl (entry (x_STATE x) t) (x_PARAMETER x) (entry p t)
                         (entry dc t)) ts))) \<and>
      apply_ij dl self PARAMETER STATE (TDV dc) (VEC v) =
        Inr (VEC (scale (self_dt self)
          (sum_V (\<lambda>t. d_u_m dl (entry (x_STATE x) t) (x_PARAMETER x) (entry p t)
                         (entry dc t)) ts))))"
proof (intro conjI impI)
  assume sc: "set (t0 # ts) \<subseteq> set (grid c)"
  then have "t0 \<in> set (grid (zero_T c))" by (simp add: grid_zero_T)
  then obtain c0 where c0: "store (zero_T c) zero_V t0 = Inr c0"
    using store_total by blast
  have g0: "grid c0 = grid c" using store_grid[OF c0] by (simp add: grid_zero_T)
  have e0: "entry c0 t = zero_V" for t
    using entry_store[OF c0] by (simp add: entry_zero_T)
  have sc0: "set ts \<subseteq> set (grid c0)" using sc g0 by simp
  have t0n: "t0 \<notin> set ts" using dist by simp
  from apply_ij_state_parameter_loop_entries[OF adj su sp sc0, of dl self dir]
  obtain c' where r:
    "apply_ij_state_parameter_loop dl self x (VEC dir) ts (TDV c0) = Inr (TDV c')"
    "grid c' = grid c0"
    "\<forall>t. entry c' t = (if t \<in> set ts
        then scale (self_dt self)
               (d_m_u dl (entry (x_STATE x) t) (x_PARAMETER x) (entry p t) dir)
        else entry c0 t)"
    by blast
  have "apply_ij dl self STATE PARAMETER (VEC dir) (TDV c) = Inr (TDV c')"
    using lin times c0 r(1)
    by (simp add: apply_ij_def tags_distinct zero_obj_def store_obj_def)
  moreover have "entry c' t0 = zero_V" using r(3) t0n e0 by simp
  ultimately show "\<exists>c'. apply_ij dl self STATE PARAMETER (VEC dir) (TDV c) = Inr (TDV c') \<and>
         grid c' = grid c \<and> entry c' t0 = zero_V \<and>
         (\<forall>t. entry c' t = (if t \<in> set ts
            then scale (self_dt self)
                   (d_m_u dl (entry (x_STATE x) t) (x_PARAMETER x) (entry p t) dir)
            else zero_V))"
    using r(2,3) g0 e0 by auto
  from apply_ij_adjoint_parameter_loop_entries[OF adj su sp sc0, of dl self dir]
  obtain c2 where q:
    "apply_ij_adjoint_parameter_loop dl self x (VEC dir) ts (TDV c0) = Inr (TDV c2)"
    "grid c2 = grid c0"
    "\<forall>t. entry c2 t = (if t \<in> set ts
        then scale (self_dt self)
               (d_m_p dl (entry (x_STATE x) t) (x_PARAMETER x) (entry p t) dir)
        else entry c0 t)"
    by blast
  have "apply_ij dl self ADJOINT PARAMETER (VEC dir) (TDV c) = Inr (TDV c2)"
    using lin times c0 q(1)
    by (simp add: apply_ij_def tags_distinct zero_obj_def store_obj_def)
  moreover have "entry c2 t0 = zero_V" using q(3) t0n e0 by simp
  ultimately show "\<exists>c'. apply_ij dl self ADJOINT PARAMETER (VEC dir) (TDV c) = Inr (TDV c') \<and>
         grid c' = grid c \<and> entry c' t0 = zero_V \<and>
         (\<forall>t. entry c' t = (if t \<in> set ts
            then scale (self_dt self)
                   (d_m_p dl (entry (x_STATE x) t) (x_PARAMETER x) (entry p t) dir)
            else zero_V))"
    using q(2,3) g0 e0 by auto
next
  show "apply_ij dl self PARAMETER PARAMETER (VEC dir) (VEC v) =
      Inr (VEC (scale (self_dt self)
        (sum_V (\<lambda>t. d_m_m dl (entry (x_STATE x) t) (x_PARAMETER x) (entry p t) dir) ts)))"
    using lin times apply_ij_parameter_parameter_loop_sum[OF adj su sp, of dl self dir zero_V]
    by (simp add: apply_ij_def tags_distinct zero_obj_def imul_obj_def zero_V_def)
next
  assume sd: "set ts \<subseteq> set (grid dc)"
  show "apply_ij dl self PARAMETER ADJOINT (TDV dc) (VEC v) =
        Inr (VEC (scale (self_dt self)
          (sum_V (\<lambda>t. d_p_m dl (entry (x_STATE x) t) (x_PARAMETER x) (entry p t)
                         (entry dc t)) ts)))"
    using lin times apply_ij_parameter_adjoint_loop_sum[OF adj su sp sd, of dl self zero_V]
    by (simp add: apply_ij_def tags_distinct zero_obj_def imul_obj_def zero_V_def)
  show "apply_ij dl self PARAMETER STATE (TDV dc) (VEC v) =
        Inr (VEC (scale (self_dt self)
          (sum_V (\<lambda>t. d_u_m dl (entry (x_STATE x) t) (x_PARAMETER x) (entry p t)
                         (entry dc t)) ts)))"
    using lin times apply_ij_parameter_state_loop_sum[OF adj su sp sd, of dl self zero_V]
    by (simp add: apply_ij_def tags_distinct zero_obj_def imul_obj_def zero_V_def)
qed

theorem apply_ij_block_shapes_witness:
  "(\<exists>c'. apply_ij example_dl example_model STATE PARAMETER (VEC (\<lambda>q. 2)) (TDV example_out)
          = Inr (TDV c') \<and>
      grid c' = grid example_out \<and> entry c' 0 = zero_V \<and> entry c' 1 True = 4 \<and>
      entry c' 2 False = 8) \<and>
   (\<exists>c'. apply_ij example_dl example_model ADJOINT PARAMETER (VEC (\<lambda>q. 2)) (TDV example_out)
          = Inr (TDV c') \<and>
      grid c' = grid example_out \<and> entry c' 0 = zero_V \<and> entry c' 1 True = 6 \<and>
      entry c' 2 False = 10) \<and>
   (\<exists>w. apply_ij example_dl example_model PARAMETER PARAMETER (VEC (\<lambda>q. 2)) (VEC (\<lambda>q. 7))
          = Inr (VEC w) \<and> w () = 60) \<and>
   (\<exists>w. apply_ij example_dl example_model PARAMETER ADJOINT (TDV example_rhs) (VEC (\<lambda>q. 7))
          = Inr (VEC w) \<and> w () = 30) \<and>
   (\<exists>w. apply_ij example_dl example_model PARAMETER STATE (TDV example_rhs) (VEC (\<lambda>q. 7))
          = Inr (VEC w) \<and> w () = 36)"
proof -
  have lin: "self_x example_model = Some example_x" by (simp add: example_model_def)
  have adj: "x_ADJOINT example_x = Some example_rhs"
    by (simp add: example_x_def example_rhs_def)
  have su: "set [1, 2] \<subseteq> set (grid (x_STATE example_x))"
    and sp: "set [1, 2] \<subseteq> set (grid example_rhs)"
    and sc: "set (0 # [1, 2]) \<subseteq> set (grid example_out)"
    by (simp_all add: example_x_def example_rhs_def example_out_def grid_def
        TimeDependentVector_def)
  note inst = apply_ij_block_shapes[OF lin adj example_grids(1) example_grids(2) su sp,
      of example_out example_dl "\<lambda>q. 2" "\<lambda>q. 7" example_rhs]
  have dt: "self_dt example_model = 1" by (simp add: example_model_def)
  from inst sc obtain c1 where c1:
    "apply_ij example_dl example_model STATE PARAMETER (VEC (\<lambda>q. 2)) (TDV example_out)
       = Inr (TDV c1)" "grid c1 = grid example_out" "entry c1 0 = zero_V"
    "\<forall>t. entry c1 t = (if t \<in> set [1, 2]
            then scale (self_dt example_model)
                   (d_m_u example_dl (entry (x_STATE example_x) t) (x_PARAMETER example_x)
                      (entry example_rhs t) (\<lambda>q. 2))
            else zero_V)"
    by blast
  have a1: "entry c1 1 True = 4" "entry c1 2 False = 8"
    using c1(4) by (simp_all add: dt scale_def example_dl_def example_x_def example_rhs_def
        entry_def)
  from inst sc obtain c2 where c2:
    "apply_ij example_dl example_model ADJOINT PARAMETER (VEC (\<lambda>q. 2)) (TDV example_out)
       = Inr (TDV c2)" "grid c2 = grid example_out" "entry c2 0 = zero_V"
    "\<forall>t. entry c2 t = (if t \<in> set [1, 2]
            then scale (self_dt example_model)
                   (d_m_p example_dl (entry (x_STATE example_x) t) (x_PARAMETER example_x)
                      (entry example_rhs t) (\<lambda>q. 2))
            else zero_V)"
    by blast
  have a2: "entry c2 1 True = 6" "entry c2 2 False = 10"
    using c2(4) by (simp_all add: dt scale_def example_dl_def example_x_def example_rhs_def
        entry_def)
  have pp: "\<exists>w. apply_ij example_dl example_model PARAMETER PARAMETER (VEC (\<lambda>q. 2))
      (VEC (\<lambda>q. 7)) = Inr (VEC w) \<and> w () = 60"
    using inst by (simp add: dt scale_def sum_V_def example_dl_def example_x_def
        example_rhs_def entry_def)
  have pa: "\<exists>w. apply_ij example_dl example_model PARAMETER ADJOINT (TDV example_rhs)
      (VEC (\<lambda>q. 7)) = Inr (VEC w) \<and> w () = 30"
    using inst sp by (simp add: dt scale_def sum_V_def example_dl_def example_x_def
        example_rhs_def entry_def)
  have ps: "\<exists>w. apply_ij example_dl example_model PARAMETER STATE (TDV example_rhs)
      (VEC (\<lambda>q. 7)) = Inr (VEC w) \<and> w () = 36"
    using inst sp by (simp add: dt scale_def sum_V_def example_dl_def example_x_def
        example_rhs_def entry_def)
  from c1(1,2,3) a1 c2(1,2,3) a2 pp pa ps show ?thesis by blast
qed

section \<open>The reduced gradient\<close>

lemma updategrade_loop_sum:
  "set ts \<subseteq> set (grid u) \<Longrightarrow> set ts \<subseteq> set (grid p) \<Longrightarrow>
   updategrade_loop dl self m u p ts out =
     Inr (\<lambda>i. out i + sum_V (\<lambda>t. d_m dl (entry u t) m (entry p t)) ts i)"
proof (induction ts arbitrary: out)
  case Nil
  then show ?case by (simp add: sum_V_def)
next
  case (Cons a ts)
  then show ?case
    by (simp add: retrieve_total axpy_def sum_V_def add.assoc)
qed

lemma updategrade_value:
  assumes "x_ADJOINT x = Some p"
    and "set (drop 1 (self_simulation_times self)) \<subseteq> set (grid (x_STATE x))"
    and "set (drop 1 (self_simulation_times self)) \<subseteq> set (grid p)"
  shows "updategrade dl self out x =
     Inr (scale (self_dt self)
       (sum_V (\<lambda>t. d_m dl (entry (x_STATE x) t) (x_PARAMETER x) (entry p t))
          (drop 1 (self_simulation_times self))))"
  using assms by (simp add: updategrade_def Let_def updategrade_loop_sum zero_V_def)

lemma example_adjoint: "x_ADJOINT example_x = Some example_rhs"
  by (simp add: example_x_def example_rhs_def)

lemma example_gradient_grids:
  "set (drop 1 (self_simulation_times example_model)) \<subseteq> set (grid (x_STATE example_x))"
  "set (drop 1 (self_simulation_times example_model)) \<subseteq> set (grid example_rhs)"
  by (simp_all add: example_model_def example_x_def example_rhs_def grid_def)

lemma example_updategrade:
  "updategrade example_dl example_model zero_V example_x = Inr (\<lambda>q. 30)"
  using updategrade_value[OF example_adjoint example_gradient_grids, of example_dl zero_V]
  by (simp add: scale_def sum_V_def example_dl_def example_model_def example_x_def
      example_rhs_def entry_def)

text \<open>
  Claim C5, as stated, fails in its last part: the number returned is the inner product
  of the gradient with the solution of the prior's mass-matrix solver for it, which is
  the square of the gradient's norm in that metric and not the norm.  In the instance the
  call returns 225 for a gradient of norm 15.
\<close>

theorem evalGradientParameter_squared_counterexample:
  "evalGradientParameter example_dl example_model example_x (\<lambda>q. 0) True
     = Inr (\<lambda>q. 30, 225) \<and>
   metric_norm (prior_Msolver (self_prior example_model)) (\<lambda>q. 30) = 15 \<and>
   (225 :: real) \<noteq> 15"
proof -
  have s: "sqrt 225 = 15"
    by (rule real_sqrt_unique) simp_all
  have a: "evalGradientParameter example_dl example_model example_x (\<lambda>q. 0) True
     = Inr (\<lambda>q. 30, 225)"
    using example_updategrade
    by (simp add: evalGradientParameter_def Let_def axpy_def zero_V_def inner_def
        example_model_def)
  have b: "metric_norm (prior_Msolver (self_prior example_model)) (\<lambda>q. 30) = 15"
    using s by (simp add: metric_norm_def inner_def example_model_def)
  from a b show ?thesis by simp
qed

text \<open>
  Claim C5, amended.  With state and adjoint histories defined at the simulation times
  after the first, \<open>evalGradientParameter\<close> leaves in \<open>mg\<close> the vector \<open>G\<close>: the prior
  precision applied to the parameter minus the prior mean, omitted exactly when
  \<open>misfit_only\<close> is set, plus \<open>dt\<close> times the sum over the simulation times after the
  first of the derivative of the weak form with respect to the parameter at the stored
  state and adjoint.  It returns the inner product of \<open>G\<close> with the solution of the
  prior's mass-matrix solver for \<open>G\<close>, the square of the norm of \<open>G\<close> in that metric.
\<close>

theorem evalGradientParameter_value:
  assumes "x_ADJOINT x = Some p"
    and "set (drop 1 (self_simulation_times self)) \<subseteq> set (grid (x_STATE x))"
    and "set (drop 1 (self_simulation_times self)) \<subseteq> set (grid p)"
    and "G = (\<lambda>i. (if misfit_only then 0
                    else mult (prior_R (self_prior self))
                           (\<lambda>j. x_PARAMETER x j - prior_mean (self_prior self) j) i)
                 + self_dt self *
                   sum_V (\<lambda>t. d_m dl (entry (x_STATE x) t) (x_PARAMETER x) (entry p t))
                     (drop 1 (self_simulation_times self)) i)"
  shows "evalGradientParameter dl self x mg misfit_only =
     Inr (G, inner (prior_Msolver (self_prior self) G) G)"
  using assms(4) updategrade_value[OF assms(1,2,3), of dl zero_V]
  by (cases misfit_only) (simp_all add: evalGradientParameter_def Let_def axpy_def scale_def
      zero_V_def)

theorem evalGradientParameter_value_witness:
  "evalGradientParameter example_dl example_model example_x (\<lambda>q. 0) False
     = Inr (\<lambda>q. 33, 1089 / 4) \<and>
   evalGradientParameter example_dl example_model example_x (\<lambda>q. 0) True
     = Inr (\<lambda>q. 30, 225)"
proof -
  have f: "evalGradientParameter example_dl example_model example_x (\<lambda>q. 0) False
     = Inr (\<lambda>q. 33, 1089 / 4)"
    using evalGradientParameter_value[where misfit_only = False and dl = example_dl
        and mg = "\<lambda>q. 0", OF example_adjoint example_gradient_grids refl]
    by (simp add: inner_def mult_def sum_V_def example_dl_def example_model_def example_x_def
        example_rhs_def entry_def)
  have t: "evalGradientParameter example_dl example_model example_x (\<lambda>q. 0) True
     = Inr (\<lambda>q. 30, 225)"
    using evalGradientParameter_value[where misfit_only = True and dl = example_dl
        and mg = "\<lambda>q. 0", OF example_adjoint example_gradient_grids refl]
    by (simp add: inner_def mult_def sum_V_def example_dl_def example_model_def example_x_def
        example_rhs_def entry_def)
  from f t show ?thesis by simp
qed


end
